theory Spec2Isabelle
  imports Complex_Main "HOL-Library.Stream" "HOL-Library.AList"
begin

section \<open>Conventions\<close>

text \<open>
  Python floats are modelled as the real numbers: the arithmetic is the exact arithmetic the
  code writes down, without IEEE rounding, overflow to infinity or NaN. The one place where
  the code decides by comparing a freshly computed float with zero, \<open>Scaler.fit\<close>, takes
  its arithmetic as a parameter instead, so that nothing proved about it depends on how the
  floating-point operations round. Python's unbounded integers are \<^typ>\<open>int\<close>. Exceptions
  are values of the type \<open>error\<close>; a function that can raise returns \<open>error + 'a\<close>, with
  \<open>Inl\<close> for the exception.

  Python's attributes are untyped, the records here are typed. \<open>OutsideTypedModel\<close> is not an
  exception: it marks an input on which Python would go on with a value of another type than
  the annotated one (a string where a float is declared), which no typed record can hold.
\<close>

datatype error =
  ValueError string
  | KeyError string
  | TypeError string
  | AttributeError string
  | FileNotFoundError string
  | StatisticsError string
  | ZeroDivisionError
  | OutsideTypedModel string

section \<open>Base runners (mmi/models.py, BaseState)\<close>

record BaseState =
  runner_on_first :: bool
  runner_on_second :: bool
  runner_on_third :: bool

definition empty_bases :: BaseState where
  "empty_bases = \<lparr>runner_on_first = False, runner_on_second = False, runner_on_third = False\<rparr>"

definition to_code :: "BaseState \<Rightarrow> string" where
  "to_code b =
     (if runner_on_first b then ''1'' else ''_'') @
     (if runner_on_second b then ''2'' else ''_'') @
     (if runner_on_third b then ''3'' else ''_'')"

definition runners_on_base :: "BaseState \<Rightarrow> int" where
  "runners_on_base b =
     (if runner_on_first b then 1 else 0) +
     (if runner_on_second b then 1 else 0) +
     (if runner_on_third b then 1 else 0)"

section \<open>Win probability (mmi/win_prob.py)\<close>

definition RUN_EXPECTANCY_MATRIX :: "((int \<times> string) \<times> real) list" where
  "RUN_EXPECTANCY_MATRIX =
    [((0, ''___''), 0.481), ((0, ''1__''), 0.859), ((0, ''_2_''), 1.100), ((0, ''__3''), 1.361),
     ((0, ''12_''), 1.437), ((0, ''1_3''), 1.784), ((0, ''_23''), 1.970), ((0, ''123''), 2.292),
     ((1, ''___''), 0.254), ((1, ''1__''), 0.509), ((1, ''_2_''), 0.664), ((1, ''__3''), 0.950),
     ((1, ''12_''), 0.888), ((1, ''1_3''), 1.140), ((1, ''_23''), 1.352), ((1, ''123''), 1.541),
     ((2, ''___''), 0.098), ((2, ''1__''), 0.214), ((2, ''_2_''), 0.305), ((2, ''__3''), 0.362),
     ((2, ''12_''), 0.421), ((2, ''1_3''), 0.561), ((2, ''_23''), 0.570), ((2, ''123''), 0.772)]"

text \<open>\<open>RUN_EXPECTANCY_MATRIX.get((outs, base_code), 0.0)\<close>: a missing key gives 0.\<close>

definition get_run_expectancy :: "int \<Rightarrow> BaseState \<Rightarrow> real" where
  "get_run_expectancy outs base_state =
     (case map_of RUN_EXPECTANCY_MATRIX (outs, to_code base_state) of
        None \<Rightarrow> 0
      | Some v \<Rightarrow> v)"

text \<open>
  \<open>math.exp\<close> raises OverflowError when its result exceeds the largest double; the
  handler of \<open>_sigmoid\<close> then returns 0 or 1 by the sign of the argument.
\<close>

definition max_float :: real where
  "max_float = (2 ^ 53 - 1) * 2 ^ 971"

definition sigmoid :: "real \<Rightarrow> real" where
  "sigmoid x =
     (if exp (- x) > max_float then (if x < 0 then 0 else 1)
      else 1 / (1 + exp (- x)))"

definition home_advantage :: real where
  "home_advantage = 0.54"

definition calculate_win_prob ::
  "int \<Rightarrow> bool \<Rightarrow> int \<Rightarrow> BaseState \<Rightarrow> int \<Rightarrow> int \<Rightarrow> bool \<Rightarrow> real" where
  "calculate_win_prob inning top_of_inning outs base_state home_score away_score is_home_batting =
     (let innings_remaining = (9 - inning) * 2;
          innings_remaining = (if \<not> top_of_inning then innings_remaining + 1 else innings_remaining)
      in
      if inning \<ge> 9 \<and> \<not> top_of_inning \<and> home_score > away_score then 1
      else if inning > 9 \<and> top_of_inning \<and> home_score \<noteq> away_score then
        (if home_score > away_score then 1 else 0)
      else
        let score_diff = home_score - away_score;
            run_expectancy = get_run_expectancy outs base_state;
            effective_diff =
              (if is_home_batting then real_of_int score_diff + run_expectancy
               else real_of_int score_diff - run_expectancy)
        in
        if innings_remaining = 0 then
          (if home_score > away_score then 1 else if home_score = away_score then 0.5 else 0)
        else
          let innings_factor = max 0.5 (real_of_int innings_remaining);
              std_dev = 2 * sqrt innings_factor;
              z_score = effective_diff / std_dev;
              win_prob = sigmoid z_score;
              win_prob =
                (if \<bar>score_diff\<bar> \<le> 2 then
                   (if inning \<le> 5 then win_prob * 0.9 + home_advantage * 0.1 else win_prob)
                 else win_prob)
          in max 0 (min 1 win_prob))"

subsection \<open>The win-probability algorithm as the specification words it\<close>

text \<open>
  Steps 1 to 6 of the specification, written out literally; \<open>expectedRuns\<close> is the
  table lookup above and \<open>sigmoid\<close> the saturating function above.
\<close>

definition spec_halfInningsRemaining :: "int \<Rightarrow> bool \<Rightarrow> real" where
  "spec_halfInningsRemaining inning top_half =
     max 0.5 (real_of_int ((9 - inning) * 2 + (if top_half then 0 else 1)))"

definition spec_terminal :: "int \<Rightarrow> bool \<Rightarrow> int \<Rightarrow> int \<Rightarrow> bool" where
  "spec_terminal inning top_half homeScore awayScore \<longleftrightarrow>
     (\<not> top_half \<and> inning \<ge> 9 \<and> homeScore > awayScore) \<or>
     (top_half \<and> inning > 9 \<and> homeScore \<noteq> awayScore)"

definition spec_winProbability ::
  "int \<Rightarrow> bool \<Rightarrow> int \<Rightarrow> BaseState \<Rightarrow> int \<Rightarrow> int \<Rightarrow> bool \<Rightarrow> real" where
  "spec_winProbability inning top_half outs bases homeScore awayScore isHomeBatting =
     (if \<not> top_half \<and> inning \<ge> 9 \<and> homeScore > awayScore then 1
      else if top_half \<and> inning > 9 \<and> homeScore \<noteq> awayScore then
        (if homeScore > awayScore then 1 else 0)
      else
        let halfInningsRemaining = spec_halfInningsRemaining inning top_half;
            effectiveDiff =
              (if isHomeBatting then real_of_int (homeScore - awayScore) + get_run_expectancy outs bases
               else real_of_int (homeScore - awayScore) - get_run_expectancy outs bases);
            stdDev = 2 * sqrt (max 0.5 halfInningsRemaining);
            z = effectiveDiff / stdDev;
            wp = sigmoid z;
            wp = (if \<bar>homeScore - awayScore\<bar> \<le> 2 \<and> inning \<le> 5 then 0.9 * wp + 0.1 * 0.54 else wp)
        in max 0 (min 1 wp))"

subsection \<open>Leverage index (WinProbabilityModel.calculate_leverage_index)\<close>

definition calculate_leverage_index ::
  "int \<Rightarrow> bool \<Rightarrow> int \<Rightarrow> BaseState \<Rightarrow> int \<Rightarrow> int \<Rightarrow> real" where
  "calculate_leverage_index inning top_of_inning outs base_state home_score away_score =
     (let is_home_batting = \<not> top_of_inning;
          wp_current = calculate_win_prob inning top_of_inning outs base_state
                         home_score away_score is_home_batting;
          new_base_walk = \<lparr>runner_on_first = True,
                           runner_on_second = (runner_on_first base_state \<or> runner_on_second base_state),
                           runner_on_third = runner_on_third base_state\<rparr>;
          runs_scored_walk = (if runner_on_third base_state then 1 else 0);
          new_home_walk = home_score + (if is_home_batting then runs_scored_walk else 0);
          new_away_walk = away_score + (if \<not> is_home_batting then runs_scored_walk else 0);
          wp_walk = calculate_win_prob inning top_of_inning outs new_base_walk
                      new_home_walk new_away_walk is_home_batting;
          swings = [\<bar>wp_walk - wp_current\<bar>];
          new_outs_out = outs + 1;
          swings =
            (if new_outs_out \<le> 2 then
               swings @ [\<bar>calculate_win_prob inning top_of_inning new_outs_out base_state
                            home_score away_score is_home_batting - wp_current\<bar>]
             else swings);
          runs_scored_hr = 1 + runners_on_base base_state;
          new_home_hr = home_score + (if is_home_batting then runs_scored_hr else 0);
          new_away_hr = away_score + (if \<not> is_home_batting then runs_scored_hr else 0);
          wp_hr = calculate_win_prob inning top_of_inning outs empty_bases
                    new_home_hr new_away_hr is_home_batting;
          swings = swings @ [\<bar>wp_hr - wp_current\<bar>];
          avg_swing = (if swings \<noteq> [] then sum_list swings / real (length swings) else 0);
          leverage_index = avg_swing / 0.05
      in max 0 leverage_index)"

section \<open>Formatting integers and booleans as Python's f-strings do\<close>

definition digit_char :: "nat \<Rightarrow> char" where
  "digit_char d = ''0123456789'' ! d"

fun str_nat :: "nat \<Rightarrow> string" where
  "str_nat n = (if n < 10 then [digit_char n] else str_nat (n div 10) @ [digit_char (n mod 10)])"

declare str_nat.simps [simp del]

definition str_int :: "int \<Rightarrow> string" where
  "str_int i = (if i < 0 then CHR ''-'' # str_nat (nat (- i)) else str_nat (nat i))"

definition str_bool :: "bool \<Rightarrow> string" where
  "str_bool b = (if b then ''True'' else ''False'')"

section \<open>Pitch events (mmi/models.py)\<close>

datatype PitchType =
  FASTBALL | TWO_SEAM | CUTTER | SINKER | SLIDER | CURVEBALL | CHANGEUP | SPLITTER
  | KNUCKLEBALL | UNKNOWN

datatype PitchResult =
  BALL | CALLED_STRIKE | SWINGING_STRIKE | FOUL | HIT_INTO_PLAY | HIT_BY_PITCH

record Count =
  balls :: int
  strikes :: int

definition is_hitters_count :: "Count \<Rightarrow> bool" where
  "is_hitters_count c \<longleftrightarrow> balls c \<ge> 2 \<and> strikes c \<le> 1"

definition is_pitchers_count :: "Count \<Rightarrow> bool" where
  "is_pitchers_count c \<longleftrightarrow> strikes c = 2 \<and> balls c \<le> 1"

text \<open>A \<open>datetime\<close> is a number of microseconds; a \<open>Dict[str, Any]\<close> of metadata holds
  integers and strings.\<close>

type_synonym datetime = int

datatype meta_value = MInt int | MStr string

record PitchEvent =
  game_id :: string
  pitch_id :: "string option"
  at_bat_index :: int
  pitch_number :: int
  game_date :: datetime
  inning :: int
  top_of_inning :: bool
  batter_id :: string
  batter_name :: "string option"
  batter_team :: string
  pitcher_id :: string
  pitcher_name :: "string option"
  pitcher_team :: string
  home_team :: string
  away_team :: string
  outs :: int
  base_state :: BaseState
  count :: Count
  home_score :: int
  away_score :: int
  pitch_type :: "PitchType option"
  velocity :: "real option"
  release_speed :: "real option"
  plate_x :: "real option"
  plate_z :: "real option"
  pitch_result :: PitchResult
  is_final_pitch_of_pa :: bool
  wp_before :: "real option"
  wp_after :: "real option"
  venue :: "string option"
  attendance :: "int option"
  is_postseason :: bool
  is_elimination_game :: bool
  time_since_last_pitch :: "real option"
  meta :: "(string \<times> meta_value) list"

text \<open>The field constraints pydantic enforces when a \<open>PitchEvent\<close> is built.\<close>

definition valid_pitch :: "PitchEvent \<Rightarrow> bool" where
  "valid_pitch p \<longleftrightarrow>
     1 \<le> PitchEvent.inning p \<and> PitchEvent.inning p \<le> 20 \<and>
     0 \<le> outs p \<and> outs p \<le> 2 \<and>
     0 \<le> home_score p \<and> 0 \<le> away_score p \<and>
     0 \<le> balls (count p) \<and> balls (count p) \<le> 3 \<and>
     0 \<le> strikes (count p) \<and> strikes (count p) \<le> 2 \<and>
     1 \<le> pitch_number p \<and>
     (case velocity p of None \<Rightarrow> True | Some v \<Rightarrow> 0 \<le> v \<and> v \<le> 120) \<and>
     (case wp_before p of None \<Rightarrow> True | Some w \<Rightarrow> 0 \<le> w \<and> w \<le> 1) \<and>
     (case wp_after p of None \<Rightarrow> True | Some w \<Rightarrow> 0 \<le> w \<and> w \<le> 1) \<and>
     (case attendance p of None \<Rightarrow> True | Some a \<Rightarrow> 0 \<le> a)"

definition score_differential :: "PitchEvent \<Rightarrow> int" where
  "score_differential p =
     (if top_of_inning p then away_score p - home_score p else home_score p - away_score p)"


section \<open>Leverage with memoization (mmi/win_prob.py, LeverageIndexCalculator)\<close>

text \<open>The calculator's state is its cache, a dictionary from key strings to leverage values.\<close>

record LeverageIndexCalculator =
  cache :: "string \<rightharpoonup> real"

definition LeverageIndexCalculator_init :: LeverageIndexCalculator where
  "LeverageIndexCalculator_init = \<lparr>cache = Map.empty\<rparr>"

definition make_cache_key :: "PitchEvent \<Rightarrow> string" where
  "make_cache_key pitch =
     str_int (PitchEvent.inning pitch) @ ''_'' @ str_bool (top_of_inning pitch) @ ''_'' @
     str_int (outs pitch) @ ''_'' @ to_code (base_state pitch) @ ''_'' @
     str_int (home_score pitch) @ ''_'' @ str_int (away_score pitch)"

definition calculate_leverage_for_pitch ::
  "LeverageIndexCalculator \<Rightarrow> PitchEvent \<Rightarrow> real \<times> LeverageIndexCalculator" where
  "calculate_leverage_for_pitch self pitch =
     (let cache_key = make_cache_key pitch in
      case cache self cache_key of
        Some v \<Rightarrow> (v, self)
      | None \<Rightarrow>
          let leverage = calculate_leverage_index (PitchEvent.inning pitch) (top_of_inning pitch)
                           (outs pitch) (base_state pitch) (home_score pitch) (away_score pitch)
          in (leverage, self\<lparr>cache := (cache self)(cache_key \<mapsto> leverage)\<rparr>))"

section \<open>Feature calculators (mmi/features.py)\<close>

text \<open>
  The calculators keep no history that \<open>calculate\<close> reads: the workload and timing
  dictionaries created in their constructors are never used. \<open>if x:\<close> on an optional
  number is false for \<open>None\<close> and for zero.
\<close>

definition pressure_calculate :: "real \<Rightarrow> PitchEvent \<Rightarrow> real" where
  "pressure_calculate league_avg_attendance pitch =
     (let score_diff = \<bar>score_differential pitch\<bar>;
          closeness_pressure = exp (- 0.3 * real_of_int score_diff);
          pressure_components = [closeness_pressure * 2.0];
          inning_pressure =
            (if PitchEvent.inning pitch \<le> 3 then 0.5
             else if PitchEvent.inning pitch \<le> 6 then 1.0
             else 1.5 + real_of_int (PitchEvent.inning pitch - 7) * 0.2);
          pressure_components = pressure_components @ [inning_pressure * 1.5];
          crowd_factor =
            (case attendance pitch of
               Some a \<Rightarrow> (if a \<noteq> 0 then min 2.0 (real_of_int a / league_avg_attendance) else 1.0)
             | None \<Rightarrow> 1.0);
          pressure_components = pressure_components @ [crowd_factor * 0.5];
          is_batting_team_away = top_of_inning pitch;
          away_pressure = (if is_batting_team_away then 0.3 else 0.0);
          pressure_components = pressure_components @ [away_pressure];
          pressure_components =
            (if is_postseason pitch then
               (pressure_components @ [1.5]) @ (if is_elimination_game pitch then [1.0] else [])
             else pressure_components);
          pressure_components =
            (case time_since_last_pitch pitch of
               Some t \<Rightarrow>
                 (if t \<noteq> 0 \<and> t > 30 then pressure_components @ [min 2.0 (t / 30.0) * 0.5]
                  else pressure_components)
             | None \<Rightarrow> pressure_components)
      in sum_list pressure_components)"

definition calculate_pitcher_fatigue :: "PitchEvent \<Rightarrow> int \<Rightarrow> int \<Rightarrow> int \<Rightarrow> bool \<Rightarrow> real" where
  "calculate_pitcher_fatigue pitch pitches_in_game pitches_last_7_days days_since_last_outing is_starter =
     (let game_fatigue =
            (if is_starter then
               (if pitches_in_game < 75 then real_of_int pitches_in_game / 75.0
                else 1.0 + real_of_int (pitches_in_game - 75) / 30.0)
             else
               (if pitches_in_game < 25 then real_of_int pitches_in_game / 25.0
                else 1.0 + real_of_int (pitches_in_game - 25) / 10.0));
          fatigue_components = [game_fatigue * 2.0];
          workload_fatigue = real_of_int pitches_last_7_days / 100.0;
          fatigue_components = fatigue_components @ [workload_fatigue * 1.5];
          rest_fatigue =
            (if days_since_last_outing = 0 then 2.0
             else if days_since_last_outing = 1 then 1.5
             else if days_since_last_outing = 2 then 1.0
             else max 0.0 (1.0 - real_of_int (days_since_last_outing - 2) * 0.2));
          fatigue_components = fatigue_components @ [rest_fatigue * 1.0];
          inning_fatigue = real_of_int (PitchEvent.inning pitch) / 9.0;
          fatigue_components = fatigue_components @ [inning_fatigue * 0.5]
      in sum_list fatigue_components)"

definition calculate_batter_fatigue :: "PitchEvent \<Rightarrow> int \<Rightarrow> int \<Rightarrow> real" where
  "calculate_batter_fatigue pitch pas_in_game pas_last_7_days =
     (let pa_fatigue = real_of_int pas_in_game / 5.0;
          fatigue_components = [pa_fatigue * 1.0];
          workload_fatigue = real_of_int pas_last_7_days / 30.0;
          fatigue_components = fatigue_components @ [workload_fatigue * 1.0];
          fatigue_components =
            (if PitchEvent.inning pitch > 9 then
               fatigue_components @ [real_of_int (PitchEvent.inning pitch - 9) * 0.3]
             else fatigue_components);
          fatigue_components =
            (if PitchEvent.inning pitch \<ge> 7 then
               fatigue_components @ [real_of_int (PitchEvent.inning pitch - 6) * 0.2]
             else fatigue_components)
      in sum_list fatigue_components)"

definition calculate_pitcher_execution :: "PitchEvent \<Rightarrow> real \<Rightarrow> bool \<Rightarrow> real" where
  "calculate_pitcher_execution pitch batter_woba is_platoon_disadvantage =
     (let batter_difficulty = (batter_woba / 0.320) * 1.5;
          difficulty_components = [batter_difficulty];
          count_difficulty =
            (if is_hitters_count (count pitch) then 1.5
             else if is_pitchers_count (count pitch) then 0.5
             else 1.0);
          difficulty_components = difficulty_components @ [count_difficulty];
          runners = runners_on_base (base_state pitch);
          situation_difficulty =
            (real_of_int runners * 0.5) + (real_of_int (2 - outs pitch) * 0.3);
          difficulty_components = difficulty_components @ [situation_difficulty];
          difficulty_components =
            (if is_platoon_disadvantage then difficulty_components @ [0.5]
             else difficulty_components);
          difficulty_components =
            (if score_differential pitch < 0 then difficulty_components @ [0.3]
             else difficulty_components)
      in sum_list difficulty_components)"

definition calculate_batter_execution :: "PitchEvent \<Rightarrow> real option \<Rightarrow> real \<Rightarrow> real" where
  "calculate_batter_execution pitch previous_pitch_velocity pitcher_stuff_plus =
     (let difficulty_components =
            (case velocity pitch of
               Some v \<Rightarrow>
                 (if v \<noteq> 0 then
                    [(v / 92.0) * 1.0] @
                    (case previous_pitch_velocity of
                       Some pv \<Rightarrow> (if pv \<noteq> 0 then [min 1.0 (\<bar>v - pv\<bar> / 10.0) * 0.5] else [])
                     | None \<Rightarrow> [])
                  else [])
             | None \<Rightarrow> []);
          count_difficulty =
            (if is_hitters_count (count pitch) then 0.5
             else if is_pitchers_count (count pitch) then 1.5
             else 1.0);
          difficulty_components = difficulty_components @ [count_difficulty];
          pitcher_difficulty = (pitcher_stuff_plus / 100.0) * 1.0;
          difficulty_components = difficulty_components @ [pitcher_difficulty];
          difficulty_components =
            (if strikes (count pitch) = 2 then difficulty_components @ [0.5]
             else difficulty_components);
          difficulty_components =
            (if runner_on_second (base_state pitch) \<or> runner_on_third (base_state pitch) then
               difficulty_components @ [0.3]
             else difficulty_components)
      in sum_list difficulty_components)"

definition bio_calculate :: "PitchEvent \<Rightarrow> int \<Rightarrow> int \<Rightarrow> real \<Rightarrow> real" where
  "bio_calculate pitch pitches_in_game high_mmi_moments_in_game pitcher_avg_tempo =
     (let bio_components =
            (case time_since_last_pitch pitch of
               Some t \<Rightarrow>
                 (if t \<noteq> 0 then [min 1.0 (\<bar>t - pitcher_avg_tempo\<bar> / 5.0) * 0.8] else [])
             | None \<Rightarrow> []);
          cumulative_stress = min 2.0 (real_of_int high_mmi_moments_in_game * 0.3);
          bio_components = bio_components @ [cumulative_stress];
          bio_components =
            (if PitchEvent.inning pitch \<ge> 7 \<and> \<bar>score_differential pitch\<bar> \<le> 2 then
               (if runners_on_base (base_state pitch) \<ge> 2 then bio_components @ [0.5]
                else bio_components)
             else bio_components);
          bio_components =
            (if PitchEvent.inning pitch \<ge> 9 then
               (if \<not> top_of_inning pitch \<and> score_differential pitch > 0 then
                  bio_components @ [0.6]
                else if top_of_inning pitch \<and> score_differential pitch < 0 then
                  bio_components @ [0.6]
                else bio_components)
             else bio_components);
          bio_components =
            (if pitches_in_game > 100 then
               bio_components @ [real_of_int (pitches_in_game - 100) / 50.0]
             else bio_components)
      in sum_list bio_components)"

text \<open>
  \<open>FeatureBuilder\<close>: its only state is the league-average attendance handed to the
  pressure calculator. The dictionary it returns has the four keys \<open>pressure\<close>,
  \<open>fatigue\<close>, \<open>execution\<close>, \<open>bio_proxies\<close>, given here as a tuple in that order.
\<close>

record FeatureBuilder =
  league_avg_attendance :: real

definition FeatureBuilder_init :: FeatureBuilder where
  "FeatureBuilder_init = \<lparr>league_avg_attendance = 30000.0\<rparr>"

definition compute_pitcher_features ::
  "FeatureBuilder \<Rightarrow> PitchEvent \<Rightarrow> int \<Rightarrow> int \<Rightarrow> int \<Rightarrow> bool \<Rightarrow> real \<Rightarrow> int
     \<Rightarrow> real \<times> real \<times> real \<times> real" where
  "compute_pitcher_features self pitch pitches_in_game pitches_last_7_days days_since_last_outing
       is_starter batter_woba high_mmi_moments_in_game =
     (let pressure = pressure_calculate (league_avg_attendance self) pitch;
          fatigue = calculate_pitcher_fatigue pitch pitches_in_game pitches_last_7_days
                      days_since_last_outing is_starter;
          execution = calculate_pitcher_execution pitch batter_woba False;
          bio_proxies = bio_calculate pitch pitches_in_game high_mmi_moments_in_game 20.0
      in (pressure, fatigue, execution, bio_proxies))"

definition compute_batter_features ::
  "FeatureBuilder \<Rightarrow> PitchEvent \<Rightarrow> int \<Rightarrow> int \<Rightarrow> real option \<Rightarrow> int
     \<Rightarrow> real \<times> real \<times> real \<times> real" where
  "compute_batter_features self pitch pas_in_game pas_last_7_days previous_pitch_velocity
       high_mmi_moments_in_game =
     (let pressure = pressure_calculate (league_avg_attendance self) pitch;
          fatigue = calculate_batter_fatigue pitch pas_in_game pas_last_7_days;
          execution = calculate_batter_execution pitch previous_pitch_velocity 100.0;
          bio_proxies = bio_calculate pitch pas_in_game high_mmi_moments_in_game 20.0
      in (pressure, fatigue, execution, bio_proxies))"


section \<open>Scalers (mmi/scaling.py)\<close>

record Scaler =
  mean :: real
  std :: real
  name :: string

definition Scaler_init :: "real \<Rightarrow> real \<Rightarrow> string \<Rightarrow> Scaler" where
  "Scaler_init m s n = \<lparr>mean = m, std = (if s = 0 then 1.0 else s), name = n\<rparr>"

definition transform :: "Scaler \<Rightarrow> real \<Rightarrow> real" where
  "transform self v = (if std self = 0 then 0.0 else (v - mean self) / std self)"

definition inverse_transform :: "Scaler \<Rightarrow> real \<Rightarrow> real" where
  "inverse_transform self z_score = (z_score * std self) + mean self"

text \<open>
  The floating-point operations \<open>fit\<close> uses: \<open>sum(...)\<close> over a list, \<open>/\<close>, \<open>-\<close>, \<open>** 2\<close> and
  \<open>math.sqrt\<close>. Each is some function of its arguments; which one is left open. In exact
  arithmetic the variance of a constant list is 0; in binary floating point the computed
  mean of \<open>[0.1, 0.1, 0.1]\<close> is not 0.1, and the computed standard deviation is small but not 0.
\<close>

record float_arith =
  fsum :: "real list \<Rightarrow> real"
  fdiv :: "real \<Rightarrow> real \<Rightarrow> real"
  fsub :: "real \<Rightarrow> real \<Rightarrow> real"
  fsquare :: "real \<Rightarrow> real"
  fsqrt :: "real \<Rightarrow> real"

definition exact_arith :: float_arith where
  "exact_arith =
     \<lparr>fsum = sum_list, fdiv = (\<lambda>x y. x / y), fsub = (\<lambda>x y. x - y),
      fsquare = (\<lambda>x. x ^ 2), fsqrt = sqrt\<rparr>"

text \<open>\<open>Scaler.fit\<close>. The variance is a sum of squares over a positive count, so \<open>math.sqrt\<close>
  is not handed a negative number.\<close>

definition fit :: "float_arith \<Rightarrow> Scaler \<Rightarrow> real list \<Rightarrow> Scaler" where
  "fit ar self vals =
     (if vals = [] then self
      else
        let n = real (length vals);
            m = fdiv ar (fsum ar vals) n;
            variance = fdiv ar (fsum ar (map (\<lambda>x. fsquare ar (fsub ar x m)) vals)) n;
            s = fsqrt ar variance;
            s = (if s = 0 then 1.0 else s)
        in self\<lparr>mean := m, std := s\<rparr>)"

subsection \<open>JSON documents and the file store\<close>

text \<open>
  A JSON document as \<open>json.dump\<close> receives it and \<open>json.load\<close> returns it. The text on
  disk is the library's business: a number is the float it denotes and the ISO-8601 text of
  a datetime is the datetime it denotes (\<open>JDate\<close>; a \<open>JStr\<close> is any other string). The file
  system maps a path to the document stored there.
\<close>

datatype json =
  JNull
  | JBool bool
  | JInt int
  | JNum real
  | JStr string
  | JDate datetime
  | JArr "json list"
  | JObj "(string \<times> json) list"

type_synonym filesystem = "string \<rightharpoonup> json"

text \<open>The truth value Python gives a loaded JSON value in \<open>if value:\<close>.\<close>

definition truthy :: "json \<Rightarrow> bool" where
  "truthy j =
     (case j of
        JNull \<Rightarrow> False
      | JBool b \<Rightarrow> b
      | JInt i \<Rightarrow> i \<noteq> 0
      | JNum r \<Rightarrow> r \<noteq> 0
      | JStr t \<Rightarrow> t \<noteq> []
      | JDate t \<Rightarrow> True
      | JArr l \<Rightarrow> l \<noteq> []
      | JObj l \<Rightarrow> l \<noteq> [])"

text \<open>\<open>d.get(k, default)\<close>: only a dictionary has the method \<open>get\<close>.\<close>

definition json_get :: "json \<Rightarrow> string \<Rightarrow> json \<Rightarrow> error + json" where
  "json_get d k dflt =
     (case d of
        JObj kvs \<Rightarrow> Inr (case map_of kvs k of Some v \<Rightarrow> v | None \<Rightarrow> dflt)
      | _ \<Rightarrow> Inl (AttributeError ''get''))"

text \<open>\<open>d[k]\<close> with a string key: KeyError for a dictionary without the key, TypeError for
  a value that is no dictionary.\<close>

definition json_index :: "json \<Rightarrow> string \<Rightarrow> error + json" where
  "json_index d k =
     (case d of
        JObj kvs \<Rightarrow> (case map_of kvs k of Some v \<Rightarrow> Inr v | None \<Rightarrow> Inl (KeyError k))
      | _ \<Rightarrow> Inl (TypeError ''not subscriptable by a string''))"

definition json_number :: "json \<Rightarrow> real option" where
  "json_number j = (case j of JNum r \<Rightarrow> Some r | JInt i \<Rightarrow> Some (real_of_int i) | _ \<Rightarrow> None)"

definition to_dict :: "Scaler \<Rightarrow> json" where
  "to_dict self = JObj [(''name'', JStr (name self)), (''mean'', JNum (mean self)), (''std'', JNum (std self))]"

text \<open>
  \<open>Scaler.from_dict\<close>: \<open>data["mean"]\<close>, \<open>data["std"]\<close> and \<open>data.get("name", "feature")\<close> are
  evaluated in this order, then the constructor runs. A mean or a standard deviation that is
  no number, or a name that is no string, is outside the typed model.
\<close>

definition from_dict :: "json \<Rightarrow> error + Scaler" where
  "from_dict data =
     (case json_index data ''mean'' of Inl e \<Rightarrow> Inl e | Inr jm \<Rightarrow>
      case json_index data ''std'' of Inl e \<Rightarrow> Inl e | Inr js \<Rightarrow>
      case json_get data ''name'' (JStr ''feature'') of Inl e \<Rightarrow> Inl e | Inr jn \<Rightarrow>
        (case (json_number jm, json_number js, jn) of
           (Some m, Some s, JStr n) \<Rightarrow> Inr (Scaler_init m s n)
         | _ \<Rightarrow> Inl (OutsideTypedModel ''Scaler'')))"

record MMIScalerSet =
  leverage_scaler :: Scaler
  pressure_scaler :: Scaler
  fatigue_scaler :: Scaler
  execution_scaler :: Scaler
  bio_scaler :: Scaler
  season :: "int option"
  season_type :: string
  total_pitches :: int
  last_updated :: "datetime option"

definition MMIScalerSet_init :: MMIScalerSet where
  "MMIScalerSet_init =
     \<lparr>leverage_scaler = Scaler_init 0.0 1.0 ''leverage_index'',
      pressure_scaler = Scaler_init 0.0 1.0 ''pressure'',
      fatigue_scaler = Scaler_init 0.0 1.0 ''fatigue'',
      execution_scaler = Scaler_init 0.0 1.0 ''execution'',
      bio_scaler = Scaler_init 0.0 1.0 ''bio_proxies'',
      season = None, season_type = ''regular'', total_pitches = 0, last_updated = None\<rparr>"

text \<open>\<open>MMIScalerSet.fit\<close>; \<open>now\<close> is the reading of \<open>datetime.utcnow()\<close>.\<close>

definition fit_all ::
  "float_arith \<Rightarrow> MMIScalerSet \<Rightarrow> datetime \<Rightarrow> real list \<Rightarrow> real list \<Rightarrow> real list \<Rightarrow> real list
     \<Rightarrow> real list \<Rightarrow> int \<Rightarrow> string \<Rightarrow> MMIScalerSet" where
  "fit_all ar self now leverage_values pressure_values fatigue_values execution_values bio_values
       yr styp =
     self\<lparr>leverage_scaler := fit ar (leverage_scaler self) leverage_values,
          pressure_scaler := fit ar (pressure_scaler self) pressure_values,
          fatigue_scaler := fit ar (fatigue_scaler self) fatigue_values,
          execution_scaler := fit ar (execution_scaler self) execution_values,
          bio_scaler := fit ar (bio_scaler self) bio_values,
          season := Some yr,
          season_type := styp,
          total_pitches := int (length leverage_values),
          last_updated := Some now\<rparr>"

text \<open>The dictionary of z-scores, as the tuple
  \<open>(z_leverage, z_pressure, z_fatigue, z_execution, z_bio)\<close>.\<close>

definition transform_all ::
  "MMIScalerSet \<Rightarrow> real \<Rightarrow> real \<Rightarrow> real \<Rightarrow> real \<Rightarrow> real \<Rightarrow> real \<times> real \<times> real \<times> real \<times> real" where
  "transform_all self leverage pressure fatigue execution bio =
     (transform (leverage_scaler self) leverage,
      transform (pressure_scaler self) pressure,
      transform (fatigue_scaler self) fatigue,
      transform (execution_scaler self) execution,
      transform (bio_scaler self) bio)"

definition save_document :: "MMIScalerSet \<Rightarrow> json" where
  "save_document self =
     JObj
       [(''metadata'',
         JObj [(''season'', (case season self of None \<Rightarrow> JNull | Some y \<Rightarrow> JInt y)),
               (''season_type'', JStr (season_type self)),
               (''total_pitches'', JInt (total_pitches self)),
               (''last_updated'', (case last_updated self of Some t \<Rightarrow> JDate t | None \<Rightarrow> JNull))]),
        (''scalers'',
         JObj [(''leverage'', to_dict (leverage_scaler self)),
               (''pressure'', to_dict (pressure_scaler self)),
               (''fatigue'', to_dict (fatigue_scaler self)),
               (''execution'', to_dict (execution_scaler self)),
               (''bio_proxies'', to_dict (bio_scaler self))])]"

definition save :: "filesystem \<Rightarrow> MMIScalerSet \<Rightarrow> string \<Rightarrow> filesystem" where
  "save fs self file_path = fs(file_path \<mapsto> save_document self)"

text \<open>\<open>Scaler.from_dict(scalers_data[key])\<close>.\<close>

definition load_scaler :: "json \<Rightarrow> string \<Rightarrow> error + Scaler" where
  "load_scaler scalers_data k =
     (case json_index scalers_data k of
        Inl e \<Rightarrow> Inl e
      | Inr d \<Rightarrow> from_dict d)"

text \<open>
  One step of the five loads: an exception ends the load; a scaler outside the typed model
  does not stop Python, so the remaining steps still run (and may raise) and the scaler is
  carried on as \<open>None\<close>.
\<close>

definition then_load :: "error + Scaler \<Rightarrow> (Scaler option \<Rightarrow> error + 'a) \<Rightarrow> error + 'a" where
  "then_load r k =
     (case r of
        Inr s \<Rightarrow> k (Some s)
      | Inl (OutsideTypedModel _) \<Rightarrow> k None
      | Inl e \<Rightarrow> Inl e)"

text \<open>\<open>datetime.fromisoformat(metadata["last_updated"])\<close> under \<open>if metadata.get("last_updated")\<close>.\<close>

definition parse_last_updated :: "json \<Rightarrow> error + datetime option" where
  "parse_last_updated j =
     (if \<not> truthy j then Inr None
      else
        (case j of
           JDate t \<Rightarrow> Inr (Some t)
         | JStr _ \<Rightarrow> Inl (ValueError ''Invalid isoformat string'')
         | _ \<Rightarrow> Inl (TypeError ''fromisoformat: argument must be str'')))"

text \<open>
  \<open>MMIScalerSet.load\<close> after \<open>json.load\<close>. The statements run in the code's order, so the
  exception reported is the first one Python raises. When none is raised but some value has
  another type than its field, the document is outside the typed model.
\<close>

definition load_document :: "json \<Rightarrow> error + MMIScalerSet" where
  "load_document data =
     (case json_get data ''metadata'' (JObj []) of Inl e \<Rightarrow> Inl e | Inr metadata \<Rightarrow>
      case json_get metadata ''season'' JNull of Inl e \<Rightarrow> Inl e | Inr j_season \<Rightarrow>
      case json_get metadata ''season_type'' (JStr ''regular'') of Inl e \<Rightarrow> Inl e | Inr j_type \<Rightarrow>
      case json_get metadata ''total_pitches'' (JInt 0) of Inl e \<Rightarrow> Inl e | Inr j_total \<Rightarrow>
      case json_get metadata ''last_updated'' JNull of Inl e \<Rightarrow> Inl e | Inr j_updated \<Rightarrow>
      case parse_last_updated j_updated of Inl e \<Rightarrow> Inl e | Inr updated \<Rightarrow>
      case json_get data ''scalers'' (JObj []) of Inl e \<Rightarrow> Inl e | Inr scalers_data \<Rightarrow>
      then_load (load_scaler scalers_data ''leverage'') (\<lambda>l.
      then_load (load_scaler scalers_data ''pressure'') (\<lambda>p.
      then_load (load_scaler scalers_data ''fatigue'') (\<lambda>f.
      then_load (load_scaler scalers_data ''execution'') (\<lambda>x.
      then_load (load_scaler scalers_data ''bio_proxies'') (\<lambda>b.
        (case (l, p, f, x, b,
               (case j_season of JNull \<Rightarrow> Some None | JInt y \<Rightarrow> Some (Some y) | _ \<Rightarrow> None),
               (case j_type of JStr t \<Rightarrow> Some t | _ \<Rightarrow> None),
               (case j_total of JInt n \<Rightarrow> Some n | _ \<Rightarrow> None)) of
           (Some l', Some p', Some f', Some x', Some b', Some yr, Some styp, Some n) \<Rightarrow>
             Inr \<lparr>leverage_scaler = l', pressure_scaler = p', fatigue_scaler = f',
                  execution_scaler = x', bio_scaler = b',
                  season = yr, season_type = styp, total_pitches = n, last_updated = updated\<rparr>
         | _ \<Rightarrow> Inl (OutsideTypedModel ''MMIScalerSet''))))))))"

definition load :: "filesystem \<Rightarrow> string \<Rightarrow> error + MMIScalerSet" where
  "load fs file_path =
     (case fs file_path of
        None \<Rightarrow> Inl (FileNotFoundError file_path)
      | Some data \<Rightarrow> load_document data)"

text \<open>\<open>create_default_scalers\<close>; the year of \<open>datetime.now()\<close> and the reading of
  \<open>datetime.utcnow()\<close> are arguments.\<close>

definition create_default_scalers :: "int \<Rightarrow> datetime \<Rightarrow> MMIScalerSet" where
  "create_default_scalers current_year now =
     MMIScalerSet_init
       \<lparr>leverage_scaler := Scaler_init 1.0 0.5 ''leverage_index'',
        pressure_scaler := Scaler_init 3.0 1.5 ''pressure'',
        fatigue_scaler := Scaler_init 2.5 1.2 ''fatigue'',
        execution_scaler := Scaler_init 3.0 1.0 ''execution'',
        bio_scaler := Scaler_init 1.0 0.8 ''bio_proxies'',
        season := Some current_year,
        season_type := ''default'',
        last_updated := Some now\<rparr>"

section \<open>Components and results (mmi/models.py)\<close>

record MMIComponents =
  leverage_index :: real
  pressure_score :: real
  fatigue_score :: real
  execution_windows :: real
  bio_proxies :: real
  z_leverage :: real
  z_pressure :: real
  z_fatigue :: real
  z_execution :: real
  z_bio :: real
  weight_leverage :: real
  weight_pressure :: real
  weight_fatigue :: real
  weight_execution :: real
  weight_bio :: real

definition weighted_sum :: "MMIComponents \<Rightarrow> real" where
  "weighted_sum self =
     weight_leverage self * z_leverage self +
     weight_pressure self * z_pressure self +
     weight_fatigue self * z_fatigue self +
     weight_execution self * z_execution self +
     weight_bio self * z_bio self"

text \<open>\<open>timestamp\<close> has the default factory \<open>datetime.utcnow\<close>: it is read from the clock
  whenever an \<open>MMIResult\<close> is built.\<close>

record MMIResult =
  pitch_id :: "string option"
  game_id :: string
  batter_id :: string
  pitcher_id :: string
  inning :: int
  mmi :: real
  components :: MMIComponents
  timestamp :: datetime
  role :: string
  meta :: "(string \<times> meta_value) list"

section \<open>The MMI calculator (mmi/mmi_core.py)\<close>

text \<open>
  The per-pitch context dictionary: each key is present with a value or absent, and
  \<open>ctx.get(key, default)\<close> supplies the default for an absent key.
\<close>

record Context =
  pitches_in_game :: "int option"
  pitches_last_7_days :: "int option"
  days_since_last_outing :: "int option"
  is_starter :: "bool option"
  batter_woba :: "real option"
  pas_in_game :: "int option"
  pas_last_7_days :: "int option"
  high_mmi_moments_in_game :: "int option"
  previous_pitch_velocity :: "real option"

definition empty_context :: Context where
  "empty_context =
     \<lparr>pitches_in_game = None, pitches_last_7_days = None, days_since_last_outing = None,
      is_starter = None, batter_woba = None, pas_in_game = None, pas_last_7_days = None,
      high_mmi_moments_in_game = None, previous_pitch_velocity = None\<rparr>"

definition ctx_get :: "'a option \<Rightarrow> 'a \<Rightarrow> 'a" where
  "ctx_get v d = (case v of Some x \<Rightarrow> x | None \<Rightarrow> d)"

text \<open>The environment's clock: the readings that successive calls of
  \<open>datetime.utcnow()\<close> return.\<close>

type_synonym clock = "datetime stream"

record MMICalculator =
  leverage_calc :: LeverageIndexCalculator
  feature_builder :: FeatureBuilder
  scaler_set :: MMIScalerSet
  weights :: "(string \<times> real) list"

definition default_weights :: "(string \<times> real) list" where
  "default_weights =
     [(''leverage'', 0.35), (''pressure'', 0.20), (''fatigue'', 0.20), (''execution'', 0.15),
      (''bio'', 0.10)]"

text \<open>\<open>dict.update\<close>: an existing key keeps its place, a new key goes to the end.\<close>

fun dict_update :: "(string \<times> real) list \<Rightarrow> (string \<times> real) list \<Rightarrow> (string \<times> real) list" where
  "dict_update d [] = d"
| "dict_update d ((k, v) # kvs) = dict_update (AList.update k v d) kvs"

text \<open>
  \<open>MMICalculator.__init__\<close>. With no scaler set the defaults are created, which reads the
  current year and the clock. Dividing by a zero total raises ZeroDivisionError.
\<close>

definition MMICalculator_init ::
  "int \<Rightarrow> datetime \<Rightarrow> MMIScalerSet option \<Rightarrow> (string \<times> real) list option \<Rightarrow> error + MMICalculator" where
  "MMICalculator_init current_year now scaler_set_arg custom_weights =
     (let scaler_set =
            (case scaler_set_arg of
               None \<Rightarrow> create_default_scalers current_year now
             | Some s \<Rightarrow> s);
          weights = default_weights;
          weights =
            (case custom_weights of
               None \<Rightarrow> weights
             | Some cw \<Rightarrow> (if cw \<noteq> [] then dict_update weights cw else weights));
          total_weight = sum_list (map snd weights)
      in
      if \<bar>total_weight - 1.0\<bar> > 0.01 then
        (if total_weight = 0 then Inl ZeroDivisionError
         else
           Inr \<lparr>leverage_calc = LeverageIndexCalculator_init,
                feature_builder = FeatureBuilder_init,
                scaler_set = scaler_set,
                weights = map (\<lambda>(k, v). (k, v / total_weight)) weights\<rparr>)
      else
        Inr \<lparr>leverage_calc = LeverageIndexCalculator_init,
             feature_builder = FeatureBuilder_init,
             scaler_set = scaler_set,
             weights = weights\<rparr>)"

text \<open>\<open>self.weights[key]\<close> for the five component keys, in the order the code reads them.\<close>

definition get_weights :: "(string \<times> real) list \<Rightarrow> error + (real \<times> real \<times> real \<times> real \<times> real)" where
  "get_weights ws =
     (case map_of ws ''leverage'' of None \<Rightarrow> Inl (KeyError ''leverage'') | Some w_lev \<Rightarrow>
      case map_of ws ''pressure'' of None \<Rightarrow> Inl (KeyError ''pressure'') | Some w_pre \<Rightarrow>
      case map_of ws ''fatigue'' of None \<Rightarrow> Inl (KeyError ''fatigue'') | Some w_fat \<Rightarrow>
      case map_of ws ''execution'' of None \<Rightarrow> Inl (KeyError ''execution'') | Some w_exe \<Rightarrow>
      case map_of ws ''bio'' of None \<Rightarrow> Inl (KeyError ''bio'') | Some w_bio \<Rightarrow>
        Inr (w_lev, w_pre, w_fat, w_exe, w_bio))"

text \<open>
  \<open>compute_pitch_mmi\<close> returns its result (or the exception raised) together with the
  calculator, whose leverage cache the call may have extended, and the clock after the
  reading taken for the result's timestamp.
\<close>

definition compute_pitch_mmi ::
  "MMICalculator \<Rightarrow> clock \<Rightarrow> PitchEvent \<Rightarrow> string \<Rightarrow> Context option
     \<Rightarrow> (error + MMIResult) \<times> MMICalculator \<times> clock" where
  "compute_pitch_mmi self clk pitch rol context =
     (if rol \<notin> set [''pitcher'', ''batter''] then
        (Inl (ValueError ''role must be pitcher or batter''), self, clk)
      else
        let (leverage, lc) = calculate_leverage_for_pitch (leverage_calc self) pitch;
            self = self\<lparr>leverage_calc := lc\<rparr>;
            ctx = (case context of Some c \<Rightarrow> c | None \<Rightarrow> empty_context);
            pitches_in_game = ctx_get (Context.pitches_in_game ctx) 50;
            pitches_last_7_days = ctx_get (Context.pitches_last_7_days ctx) 0;
            days_since_last_outing = ctx_get (Context.days_since_last_outing ctx) 3;
            is_starter = ctx_get (Context.is_starter ctx) True;
            batter_woba = ctx_get (Context.batter_woba ctx) 0.320;
            pas_in_game = ctx_get (Context.pas_in_game ctx) 3;
            pas_last_7_days = ctx_get (Context.pas_last_7_days ctx) 25;
            high_mmi_moments = ctx_get (Context.high_mmi_moments_in_game ctx) 0;
            (pressure, fatigue, execution, bio) =
              (if rol = ''pitcher'' then
                 compute_pitcher_features (feature_builder self) pitch pitches_in_game
                   pitches_last_7_days days_since_last_outing is_starter batter_woba high_mmi_moments
               else
                 compute_batter_features (feature_builder self) pitch pas_in_game pas_last_7_days
                   (Context.previous_pitch_velocity ctx) high_mmi_moments);
            (zl, zp, zf, ze, zb) =
              transform_all (scaler_set self) leverage pressure fatigue execution bio
        in
        case get_weights (weights self) of
          Inl e \<Rightarrow> (Inl e, self, clk)
        | Inr (w_lev, w_pre, w_fat, w_exe, w_bio) \<Rightarrow>
            let comps =
                  \<lparr>leverage_index = leverage, pressure_score = pressure, fatigue_score = fatigue,
                   execution_windows = execution, bio_proxies = bio,
                   z_leverage = zl, z_pressure = zp, z_fatigue = zf, z_execution = ze, z_bio = zb,
                   weight_leverage = w_lev, weight_pressure = w_pre, weight_fatigue = w_fat,
                   weight_execution = w_exe, weight_bio = w_bio\<rparr>;
                mmi_score = weighted_sum comps;
                result =
                  \<lparr>pitch_id = PitchEvent.pitch_id pitch,
                   game_id = PitchEvent.game_id pitch,
                   batter_id = PitchEvent.batter_id pitch,
                   pitcher_id = PitchEvent.pitcher_id pitch,
                   inning = PitchEvent.inning pitch,
                   mmi = mmi_score,
                   components = comps,
                   timestamp = shd clk,
                   role = rol,
                   meta = [(''at_bat_index'', MInt (at_bat_index pitch)),
                           (''pitch_number'', MInt (pitch_number pitch))]\<rparr>
            in (Inr result, self, stl clk))"

text \<open>The loop over \<open>enumerate(pitches)\<close>; \<open>i\<close> is the index of the first pitch left.\<close>

fun compute_each ::
  "MMICalculator \<Rightarrow> clock \<Rightarrow> string \<Rightarrow> Context list option \<Rightarrow> nat \<Rightarrow> PitchEvent list
     \<Rightarrow> (error + MMIResult list) \<times> MMICalculator \<times> clock" where
  "compute_each self clk rol contexts i [] = (Inr [], self, clk)"
| "compute_each self clk rol contexts i (pitch # rest) =
     (let ctx =
            (case contexts of
               Some cs \<Rightarrow> (if cs \<noteq> [] \<and> i < length cs then Some (cs ! i) else None)
             | None \<Rightarrow> None)
      in
      case compute_pitch_mmi self clk pitch rol ctx of
        (Inl e, self', clk') \<Rightarrow> (Inl e, self', clk')
      | (Inr result, self', clk') \<Rightarrow>
          (case compute_each self' clk' rol contexts (Suc i) rest of
             (Inl e, self'', clk'') \<Rightarrow> (Inl e, self'', clk'')
           | (Inr results, self'', clk'') \<Rightarrow> (Inr (result # results), self'', clk'')))"

text \<open>\<open>max(mmi_results, key=lambda r: r.mmi)\<close>: the first result of greatest \<open>mmi\<close>.\<close>

fun max_by_mmi :: "MMIResult \<Rightarrow> MMIResult list \<Rightarrow> MMIResult" where
  "max_by_mmi best [] = best"
| "max_by_mmi best (r # rs) = max_by_mmi (if mmi r > mmi best then r else best) rs"

text \<open>\<open>sum(f(r.components) for r in mmi_results) / len(mmi_results)\<close> and its
  leverage-weighted counterpart.\<close>

definition mean_of :: "(MMIComponents \<Rightarrow> real) \<Rightarrow> MMIResult list \<Rightarrow> real" where
  "mean_of f mmi_results =
     sum_list (map (\<lambda>r. f (components r)) mmi_results) / real (length mmi_results)"

definition weighted_of :: "(MMIComponents \<Rightarrow> real) \<Rightarrow> MMIResult list \<Rightarrow> real \<Rightarrow> real" where
  "weighted_of f mmi_results total_leverage =
     sum_list (map (\<lambda>r. f (components r) * leverage_index (components r)) mmi_results)
       / total_leverage"

definition pa_result_of ::
  "PitchEvent \<Rightarrow> nat \<Rightarrow> string \<Rightarrow> string \<Rightarrow> real \<Rightarrow> MMIComponents \<Rightarrow> datetime \<Rightarrow> MMIResult" where
  "pa_result_of first_pitch n rol aggregation value comps now =
     \<lparr>pitch_id = None,
      game_id = PitchEvent.game_id first_pitch,
      batter_id = PitchEvent.batter_id first_pitch,
      pitcher_id = PitchEvent.pitcher_id first_pitch,
      inning = PitchEvent.inning first_pitch,
      mmi = value,
      components = comps,
      timestamp = now,
      role = rol,
      meta = [(''aggregation'', MStr aggregation), (''pitch_count'', MInt (int n))]\<rparr>"

function compute_pa_mmi ::
  "MMICalculator \<Rightarrow> clock \<Rightarrow> PitchEvent list \<Rightarrow> string \<Rightarrow> string \<Rightarrow> Context list option
     \<Rightarrow> (error + MMIResult) \<times> MMICalculator \<times> clock" where
  "compute_pa_mmi self clk pitches rol aggregation contexts =
     (case pitches of
        [] \<Rightarrow> (Inl (ValueError ''Cannot compute PA MMI with no pitches''), self, clk)
      | first_pitch # _ \<Rightarrow>
          (case compute_each self clk rol contexts 0 pitches of
             (Inl e, self', clk') \<Rightarrow> (Inl e, self', clk')
           | (Inr mmi_results, self', clk') \<Rightarrow>
               if aggregation = ''max'' then
                 (case mmi_results of
                    [] \<Rightarrow> (Inl (ValueError ''max() arg is an empty sequence''), self', clk')
                  | r # rs \<Rightarrow> (Inr (max_by_mmi r rs), self', clk'))
               else if aggregation = ''mean'' then
                 (case get_weights (weights self') of
                    Inl e \<Rightarrow> (Inl e, self', clk')
                  | Inr (w_lev, w_pre, w_fat, w_exe, w_bio) \<Rightarrow>
                      let avg_mmi = sum_list (map mmi mmi_results) / real (length mmi_results);
                          avg_components =
                            \<lparr>leverage_index = mean_of leverage_index mmi_results,
                             pressure_score = mean_of pressure_score mmi_results,
                             fatigue_score = mean_of fatigue_score mmi_results,
                             execution_windows = mean_of execution_windows mmi_results,
                             bio_proxies = mean_of bio_proxies mmi_results,
                             z_leverage = mean_of z_leverage mmi_results,
                             z_pressure = mean_of z_pressure mmi_results,
                             z_fatigue = mean_of z_fatigue mmi_results,
                             z_execution = mean_of z_execution mmi_results,
                             z_bio = mean_of z_bio mmi_results,
                             weight_leverage = w_lev, weight_pressure = w_pre, weight_fatigue = w_fat,
                             weight_execution = w_exe, weight_bio = w_bio\<rparr>
                      in (Inr (pa_result_of first_pitch (length pitches) rol ''mean'' avg_mmi
                                 avg_components (shd clk')),
                          self', stl clk'))
               else if aggregation = ''weighted'' then
                 (let total_leverage =
                        sum_list (map (\<lambda>r. leverage_index (components r)) mmi_results)
                  in
                  if total_leverage = 0 then
                    compute_pa_mmi self' clk' pitches rol ''mean'' contexts
                  else
                    (case get_weights (weights self') of
                       Inl e \<Rightarrow> (Inl e, self', clk')
                     | Inr (w_lev, w_pre, w_fat, w_exe, w_bio) \<Rightarrow>
                         let weighted_mmi =
                               sum_list (map (\<lambda>r. mmi r * leverage_index (components r) / total_leverage)
                                           mmi_results);
                             weighted_components =
                               \<lparr>leverage_index = weighted_of leverage_index mmi_results total_leverage,
                                pressure_score = weighted_of pressure_score mmi_results total_leverage,
                                fatigue_score = weighted_of fatigue_score mmi_results total_leverage,
                                execution_windows = weighted_of execution_windows mmi_results total_leverage,
                                bio_proxies = weighted_of bio_proxies mmi_results total_leverage,
                                z_leverage = weighted_of z_leverage mmi_results total_leverage,
                                z_pressure = weighted_of z_pressure mmi_results total_leverage,
                                z_fatigue = weighted_of z_fatigue mmi_results total_leverage,
                                z_execution = weighted_of z_execution mmi_results total_leverage,
                                z_bio = weighted_of z_bio mmi_results total_leverage,
                                weight_leverage = w_lev, weight_pressure = w_pre, weight_fatigue = w_fat,
                                weight_execution = w_exe, weight_bio = w_bio\<rparr>
                         in (Inr (pa_result_of first_pitch (length pitches) rol ''weighted''
                                    weighted_mmi weighted_components (shd clk')),
                             self', stl clk')))
               else (Inl (ValueError ''Unknown aggregation''), self', clk')))"
  by pat_completeness auto
termination
  by (relation "measure (\<lambda>(self, clk, pitches, rol, aggregation, contexts).
                   if aggregation = ''weighted'' then 1 else 0)") auto

declare compute_pa_mmi.simps [simp del]


section \<open>Player summaries (mmi/aggregate.py)\<close>

record PlayerMMISummary =
  player_id :: string
  player_name :: "string option"
  role :: string
  season :: int
  season_type :: string
  start_date :: "datetime option"
  end_date :: "datetime option"
  total_pitches :: int
  total_pas :: "int option"
  total_games :: int
  mean_mmi :: real
  median_mmi :: real
  std_mmi :: real
  p10_mmi :: real
  p25_mmi :: real
  p75_mmi :: real
  p90_mmi :: real
  p95_mmi :: real
  p99_mmi :: real
  high_mmi_count :: int
  extreme_mmi_count :: int
  avg_leverage :: real
  avg_pressure :: real
  avg_fatigue :: real
  avg_execution :: real
  avg_bio :: real
  meta :: "(string \<times> meta_value) list"

subsection \<open>The functions of Python's \<open>statistics\<close> module that the summary calls\<close>

definition statistics_mean :: "real list \<Rightarrow> error + real" where
  "statistics_mean xs =
     (if xs = [] then Inl (StatisticsError ''mean requires at least one data point'')
      else Inr (sum_list xs / real (length xs)))"

definition statistics_median :: "real list \<Rightarrow> error + real" where
  "statistics_median xs =
     (let data = sort xs; n = length data in
      if n = 0 then Inl (StatisticsError ''no median for empty data'')
      else if n mod 2 = 1 then Inr (data ! (n div 2))
      else let i = n div 2 in Inr ((data ! (i - 1) + data ! i) / 2))"

text \<open>\<open>statistics.stdev\<close> is the sample standard deviation: the sum of squared
  deviations from the mean is divided by \<open>n - 1\<close>.\<close>

definition statistics_stdev :: "real list \<Rightarrow> error + real" where
  "statistics_stdev xs =
     (let n = length xs in
      if n < 2 then Inl (StatisticsError ''stdev requires at least two data points'')
      else
        let m = sum_list xs / real n;
            ss = sum_list (map (\<lambda>x. (x - m) ^ 2) xs)
        in Inr (sqrt (ss / real (n - 1))))"

definition bind_result :: "error + 'a \<Rightarrow> ('a \<Rightarrow> error + 'b) \<Rightarrow> error + 'b" where
  "bind_result r f = (case r of Inl e \<Rightarrow> Inl e | Inr v \<Rightarrow> f v)"

subsection \<open>\<open>summarize_mmi_by_player\<close>\<close>

text \<open>The local function \<open>percentile\<close>; \<open>int(k)\<close> truncates, and \<open>k\<close> is not negative.\<close>

definition percentile :: "real list \<Rightarrow> real \<Rightarrow> real" where
  "percentile mmi_values p =
     (let n = length mmi_values in
      if n = 0 then 0.0
      else
        let k = (real n - 1) * p / 100;
            f = nat \<lfloor>k\<rfloor>;
            c = (if k < real n - 1 then nat \<lfloor>k\<rfloor> + 1 else f)
        in mmi_values ! f + (mmi_values ! c - mmi_values ! f) * (k - real f))"

text \<open>Grouping into the \<open>defaultdict(list)\<close>: results of another role are skipped, a
  player's results are appended in order, players keep the order of first appearance.\<close>

fun group_by_player ::
  "string \<Rightarrow> MMIResult list \<Rightarrow> (string \<times> MMIResult list) list \<Rightarrow> (string \<times> MMIResult list) list" where
  "group_by_player rol [] player_results = player_results"
| "group_by_player rol (result # rest) player_results =
     (if MMIResult.role result \<noteq> rol then group_by_player rol rest player_results
      else
        let pid = (if rol = ''pitcher'' then pitcher_id result else batter_id result);
            existing = (case map_of player_results pid of Some rs \<Rightarrow> rs | None \<Rightarrow> [])
        in group_by_player rol rest (AList.update pid (existing @ [result]) player_results))"

text \<open>The body of the loop over \<open>player_results.items()\<close> for one player with a
  non-empty list of results.\<close>

definition summarize_player ::
  "int \<Rightarrow> string \<Rightarrow> int option \<Rightarrow> string \<Rightarrow> string \<Rightarrow> MMIResult list \<Rightarrow> error + PlayerMMISummary" where
  "summarize_player current_year rol season_arg styp pid results =
     (let mmi_values = sort (map mmi results);
          unique_games = int (length (remdups (map MMIResult.game_id results)));
          high_count = int (length (filter (\<lambda>m. m > 2.0) mmi_values));
          extreme_count = int (length (filter (\<lambda>m. m > 3.0) mmi_values));
          n = length mmi_values
      in
      bind_result (statistics_mean (map (\<lambda>r. leverage_index (components r)) results)) (\<lambda>a_leverage.
      bind_result (statistics_mean (map (\<lambda>r. pressure_score (components r)) results)) (\<lambda>a_pressure.
      bind_result (statistics_mean (map (\<lambda>r. fatigue_score (components r)) results)) (\<lambda>a_fatigue.
      bind_result (statistics_mean (map (\<lambda>r. execution_windows (components r)) results)) (\<lambda>a_execution.
      bind_result (statistics_mean (map (\<lambda>r. bio_proxies (components r)) results)) (\<lambda>a_bio.
      bind_result (statistics_mean mmi_values) (\<lambda>mean_value.
      bind_result (statistics_median mmi_values) (\<lambda>median_value.
      bind_result (if n > 1 then statistics_stdev mmi_values else Inr 0.0) (\<lambda>std_value.
        Inr \<lparr>player_id = pid,
             player_name = None,
             role = rol,
             season = (case season_arg of Some y \<Rightarrow> (if y \<noteq> 0 then y else current_year)
                                         | None \<Rightarrow> current_year),
             season_type = styp,
             start_date = None,
             end_date = None,
             total_pitches = int (length results),
             total_pas = None,
             total_games = unique_games,
             mean_mmi = mean_value,
             median_mmi = median_value,
             std_mmi = std_value,
             p10_mmi = percentile mmi_values 10,
             p25_mmi = percentile mmi_values 25,
             p75_mmi = percentile mmi_values 75,
             p90_mmi = percentile mmi_values 90,
             p95_mmi = percentile mmi_values 95,
             p99_mmi = percentile mmi_values 99,
             high_mmi_count = high_count,
             extreme_mmi_count = extreme_count,
             avg_leverage = a_leverage,
             avg_pressure = a_pressure,
             avg_fatigue = a_fatigue,
             avg_execution = a_execution,
             avg_bio = a_bio,
             meta = []\<rparr>)))))))))"

fun summarize_groups ::
  "int \<Rightarrow> string \<Rightarrow> int option \<Rightarrow> string \<Rightarrow> (string \<times> MMIResult list) list
     \<Rightarrow> error + PlayerMMISummary list" where
  "summarize_groups current_year rol season_arg styp [] = Inr []"
| "summarize_groups current_year rol season_arg styp ((pid, results) # rest) =
     (if results = [] then summarize_groups current_year rol season_arg styp rest
      else
        bind_result (summarize_player current_year rol season_arg styp pid results) (\<lambda>summary.
        bind_result (summarize_groups current_year rol season_arg styp rest) (\<lambda>summaries.
          Inr (summary # summaries))))"

definition summarize_mmi_by_player ::
  "int \<Rightarrow> MMIResult list \<Rightarrow> string \<Rightarrow> int option \<Rightarrow> string \<Rightarrow> error + PlayerMMISummary list" where
  "summarize_mmi_by_player current_year mmi_results rol season_arg styp =
     summarize_groups current_year rol season_arg styp (group_by_player rol mmi_results [])"

section \<open>Notions used to state and prove the properties\<close>

subsection \<open>The parts of \<open>calculate_win_prob\<close>\<close>

definition half_innings_remaining :: "int \<Rightarrow> bool \<Rightarrow> int" where
  "half_innings_remaining inn top_half =
     (if \<not> top_half then (9 - inn) * 2 + 1 else (9 - inn) * 2)"

definition effective_diff :: "int \<Rightarrow> BaseState \<Rightarrow> int \<Rightarrow> bool \<Rightarrow> real" where
  "effective_diff os bases score_diff is_home_batting =
     (if is_home_batting then real_of_int score_diff + get_run_expectancy os bases
      else real_of_int score_diff - get_run_expectancy os bases)"

definition std_dev_of :: "int \<Rightarrow> bool \<Rightarrow> real" where
  "std_dev_of inn top_half =
     2 * sqrt (max 0.5 (real_of_int (half_innings_remaining inn top_half)))"

definition blended :: "int \<Rightarrow> int \<Rightarrow> real \<Rightarrow> real" where
  "blended inn score_diff w =
     (if \<bar>score_diff\<bar> \<le> 2 then (if inn \<le> 5 then w * 0.9 + home_advantage * 0.1 else w) else w)"

definition wp_estimate :: "int \<Rightarrow> bool \<Rightarrow> int \<Rightarrow> BaseState \<Rightarrow> int \<Rightarrow> bool \<Rightarrow> real" where
  "wp_estimate inn top_half os bases score_diff is_home_batting =
     max 0 (min 1 (blended inn score_diff
       (sigmoid (effective_diff os bases score_diff is_home_batting / std_dev_of inn top_half))))"

text \<open>The win probability as a function of the run differential.\<close>

definition wp_by_diff :: "int \<Rightarrow> bool \<Rightarrow> int \<Rightarrow> BaseState \<Rightarrow> int \<Rightarrow> bool \<Rightarrow> real" where
  "wp_by_diff inn top_half os bases d is_home_batting =
     (if inn \<ge> 9 \<and> \<not> top_half \<and> d > 0 then 1
      else if inn > 9 \<and> top_half \<and> d \<noteq> 0 then (if d > 0 then 1 else 0)
      else if half_innings_remaining inn top_half = 0 then
        (if d > 0 then 1 else if d = 0 then 0.5 else 0)
      else wp_estimate inn top_half os bases d is_home_batting)"

subsection \<open>The six-field game state of a pitch\<close>

definition same_game_state :: "PitchEvent \<Rightarrow> PitchEvent \<Rightarrow> bool" where
  "same_game_state p q \<longleftrightarrow>
     PitchEvent.inning p = PitchEvent.inning q \<and>
     top_of_inning p = top_of_inning q \<and>
     outs p = outs q \<and>
     to_code (base_state p) = to_code (base_state q) \<and>
     home_score p = home_score q \<and>
     away_score p = away_score q"

definition leverage_of_pitch :: "PitchEvent \<Rightarrow> real" where
  "leverage_of_pitch p =
     calculate_leverage_index (PitchEvent.inning p) (top_of_inning p) (outs p) (base_state p)
       (home_score p) (away_score p)"

text \<open>Every entry of the cache is the leverage of the game state its key was made from.
  The cache is private to the calculator and starts empty, so it always has this form.\<close>

definition cache_ok :: "LeverageIndexCalculator \<Rightarrow> bool" where
  "cache_ok c \<longleftrightarrow> (\<forall>p v. cache c (make_cache_key p) = Some v \<longrightarrow> v = leverage_of_pitch p)"

subsection \<open>Concrete inputs\<close>

text \<open>The sample pitch of the test suite: top of the seventh, one out, a runner on second,
  the home team ahead 3 to 2.\<close>

definition sample_pitch :: PitchEvent where
  "sample_pitch =
     \<lparr>PitchEvent.game_id = ''1'', PitchEvent.pitch_id = None, at_bat_index = 0, pitch_number = 1,
      game_date = 0, PitchEvent.inning = 7, top_of_inning = True,
      PitchEvent.batter_id = ''1'', batter_name = None, batter_team = ''NYY'',
      PitchEvent.pitcher_id = ''2'', pitcher_name = None, pitcher_team = ''BOS'',
      home_team = ''BOS'', away_team = ''NYY'',
      outs = 1,
      base_state = \<lparr>runner_on_first = False, runner_on_second = True, runner_on_third = False\<rparr>,
      count = \<lparr>balls = 2, strikes = 2\<rparr>,
      home_score = 3, away_score = 2,
      pitch_type = None, velocity = None, release_speed = None, plate_x = None, plate_z = None,
      pitch_result = BALL, is_final_pitch_of_pa = False, wp_before = None, wp_after = None,
      venue = None, attendance = None, is_postseason = False, is_elimination_game = False,
      time_since_last_pitch = None, PitchEvent.meta = []\<rparr>"

text \<open>A clock that advances by one microsecond at every reading.\<close>

definition ticking_clock :: "datetime \<Rightarrow> clock" where
  "ticking_clock t = siterate (\<lambda>x. x + 1) t"

text \<open>The calculator \<open>MMICalculator()\<close> builds when given no arguments in 2024 at time 0.\<close>

definition default_calculator :: MMICalculator where
  "default_calculator =
     \<lparr>leverage_calc = LeverageIndexCalculator_init,
      feature_builder = FeatureBuilder_init,
      scaler_set = create_default_scalers 2024 0,
      weights = default_weights\<rparr>"

subsection \<open>Scaler sets as the data model allows them\<close>

text \<open>No scaler of the set has a standard deviation of exactly zero.\<close>

definition scalers_nonzero :: "MMIScalerSet \<Rightarrow> bool" where
  "scalers_nonzero s \<longleftrightarrow>
     std (leverage_scaler s) \<noteq> 0 \<and> std (pressure_scaler s) \<noteq> 0 \<and>
     std (fatigue_scaler s) \<noteq> 0 \<and> std (execution_scaler s) \<noteq> 0 \<and>
     std (bio_scaler s) \<noteq> 0"

subsection \<open>Standard deviations and player groups\<close>

text \<open>The population standard deviation, as the specification words it (divisor \<open>N\<close>), and
  the sample standard deviation (divisor \<open>N - 1\<close>).\<close>

definition population_std :: "real list \<Rightarrow> real" where
  "population_std xs =
     (let m = sum_list xs / real (length xs)
      in sqrt (sum_list (map (\<lambda>x. (x - m) ^ 2) xs) / real (length xs)))"

definition sample_std :: "real list \<Rightarrow> real" where
  "sample_std xs =
     (let m = sum_list xs / real (length xs)
      in sqrt (sum_list (map (\<lambda>x. (x - m) ^ 2) xs) / real (length xs - 1)))"

definition player_of :: "string \<Rightarrow> MMIResult \<Rightarrow> string" where
  "player_of rol r = (if rol = ''pitcher'' then pitcher_id r else batter_id r)"

text \<open>The results of one (player id, role) group, in their order in the input.\<close>

definition group_of :: "string \<Rightarrow> string \<Rightarrow> MMIResult list \<Rightarrow> MMIResult list" where
  "group_of rol pid results =
     filter (\<lambda>r. MMIResult.role r = rol \<and> player_of rol r = pid) results"

definition zero_components :: MMIComponents where
  "zero_components =
     \<lparr>leverage_index = 0, pressure_score = 0, fatigue_score = 0, execution_windows = 0,
      bio_proxies = 0, z_leverage = 0, z_pressure = 0, z_fatigue = 0, z_execution = 0, z_bio = 0,
      weight_leverage = 0.35, weight_pressure = 0.20, weight_fatigue = 0.20,
      weight_execution = 0.15, weight_bio = 0.10\<rparr>"

text \<open>A pitcher's result with a given \<open>mmi\<close>.\<close>

definition sample_result :: "string \<Rightarrow> real \<Rightarrow> MMIResult" where
  "sample_result pid v =
     \<lparr>MMIResult.pitch_id = None, MMIResult.game_id = ''1'', MMIResult.batter_id = ''1'',
      MMIResult.pitcher_id = pid, MMIResult.inning = 1, mmi = v, components = zero_components,
      timestamp = 0, MMIResult.role = ''pitcher'', MMIResult.meta = []\<rparr>"

subsection \<open>The result of one pitch, given the leverage and the weights\<close>

text \<open>
  What \<open>compute_pitch_mmi\<close> builds once the leverage has been obtained and the five weights
  have been read: the feature extraction, the normalization, the components and the result.
  It depends on the feature builder, the scalers, the weights, the leverage, the pitch, the
  role, the context and the clock reading, and on nothing else.
\<close>

definition result_of_pitch ::
  "FeatureBuilder \<Rightarrow> MMIScalerSet \<Rightarrow> real \<times> real \<times> real \<times> real \<times> real \<Rightarrow> real \<Rightarrow> PitchEvent
     \<Rightarrow> string \<Rightarrow> Context option \<Rightarrow> datetime \<Rightarrow> MMIResult" where
  "result_of_pitch fb scalers ws leverage pitch rol context now =
     (let ctx = (case context of Some c \<Rightarrow> c | None \<Rightarrow> empty_context);
          pitches_in_game = ctx_get (Context.pitches_in_game ctx) 50;
          pitches_last_7_days = ctx_get (Context.pitches_last_7_days ctx) 0;
          days_since_last_outing = ctx_get (Context.days_since_last_outing ctx) 3;
          is_starter = ctx_get (Context.is_starter ctx) True;
          batter_woba = ctx_get (Context.batter_woba ctx) 0.320;
          pas_in_game = ctx_get (Context.pas_in_game ctx) 3;
          pas_last_7_days = ctx_get (Context.pas_last_7_days ctx) 25;
          high_mmi_moments = ctx_get (Context.high_mmi_moments_in_game ctx) 0;
          (pressure, fatigue, execution, bio) =
            (if rol = ''pitcher'' then
               compute_pitcher_features fb pitch pitches_in_game
                 pitches_last_7_days days_since_last_outing is_starter batter_woba high_mmi_moments
             else
               compute_batter_features fb pitch pas_in_game pas_last_7_days
                 (Context.previous_pitch_velocity ctx) high_mmi_moments);
          (zl, zp, zf, ze, zb) = transform_all scalers leverage pressure fatigue execution bio;
          (w_lev, w_pre, w_fat, w_exe, w_bio) = ws;
          comps =
            \<lparr>leverage_index = leverage, pressure_score = pressure, fatigue_score = fatigue,
             execution_windows = execution, bio_proxies = bio,
             z_leverage = zl, z_pressure = zp, z_fatigue = zf, z_execution = ze, z_bio = zb,
             weight_leverage = w_lev, weight_pressure = w_pre, weight_fatigue = w_fat,
             weight_execution = w_exe, weight_bio = w_bio\<rparr>
      in \<lparr>MMIResult.pitch_id = PitchEvent.pitch_id pitch,
          MMIResult.game_id = PitchEvent.game_id pitch,
          MMIResult.batter_id = PitchEvent.batter_id pitch,
          MMIResult.pitcher_id = PitchEvent.pitcher_id pitch,
          MMIResult.inning = PitchEvent.inning pitch,
          mmi = weighted_sum comps,
          components = comps,
          timestamp = now,
          MMIResult.role = rol,
          MMIResult.meta = [(''at_bat_index'', MInt (at_bat_index pitch)),
                            (''pitch_number'', MInt (pitch_number pitch))]\<rparr>)"

definition weights_of :: "MMIComponents \<Rightarrow> real \<times> real \<times> real \<times> real \<times> real" where
  "weights_of c =
     (weight_leverage c, weight_pressure c, weight_fatigue c, weight_execution c, weight_bio c)"

definition weights_total :: "MMIComponents \<Rightarrow> real" where
  "weights_total c =
     weight_leverage c + weight_pressure c + weight_fatigue c + weight_execution c + weight_bio c"

definition component_keys :: "string list" where
  "component_keys = [''leverage'', ''pressure'', ''fatigue'', ''execution'', ''bio'']"

text \<open>The calculator built in 2024 at time 0 with \<open>custom_weights = {"leverage": 0.345}\<close>.\<close>

definition custom_calculator :: MMICalculator where
  "custom_calculator =
     \<lparr>leverage_calc = LeverageIndexCalculator_init,
      feature_builder = FeatureBuilder_init,
      scaler_set = create_default_scalers 2024 0,
      weights = [(''leverage'', 0.345), (''pressure'', 0.20), (''fatigue'', 0.20),
                 (''execution'', 0.15), (''bio'', 0.10)]\<rparr>"

subsection \<open>The per-pitch pass of a plate appearance\<close>

text \<open>The context the loop hands to pitch number \<open>i\<close>.\<close>

definition context_at :: "Context list option \<Rightarrow> nat \<Rightarrow> Context option" where
  "context_at contexts i =
     (case contexts of
        Some cs \<Rightarrow> (if cs \<noteq> [] \<and> i < length cs then Some (cs ! i) else None)
      | None \<Rightarrow> None)"

text \<open>The calculator after the leverage of each pitch of a list has been asked for: only
  its cache can have grown.\<close>

fun after_pitches :: "MMICalculator \<Rightarrow> PitchEvent list \<Rightarrow> MMICalculator" where
  "after_pitches self [] = self"
| "after_pitches self (p # ps) =
     after_pitches
       (self\<lparr>leverage_calc := snd (calculate_leverage_for_pitch (leverage_calc self) p)\<rparr>) ps"

text \<open>The results of the pitches of a list, the \<open>i\<close>-th built at the \<open>i\<close>-th clock reading.\<close>

fun results_from ::
  "FeatureBuilder \<Rightarrow> MMIScalerSet \<Rightarrow> real \<times> real \<times> real \<times> real \<times> real \<Rightarrow> string
     \<Rightarrow> Context list option \<Rightarrow> nat \<Rightarrow> clock \<Rightarrow> PitchEvent list \<Rightarrow> MMIResult list" where
  "results_from fb scalers ws rol contexts i clk [] = []"
| "results_from fb scalers ws rol contexts i clk (p # ps) =
     result_of_pitch fb scalers ws (leverage_of_pitch p) p rol (context_at contexts i) (shd clk)
       # results_from fb scalers ws rol contexts (Suc i) (stl clk) ps"

definition mean_components ::
  "real \<times> real \<times> real \<times> real \<times> real \<Rightarrow> MMIResult list \<Rightarrow> MMIComponents" where
  "mean_components ws mmi_results =
     (case ws of (w_lev, w_pre, w_fat, w_exe, w_bio) \<Rightarrow>
        \<lparr>leverage_index = mean_of leverage_index mmi_results,
         pressure_score = mean_of pressure_score mmi_results,
         fatigue_score = mean_of fatigue_score mmi_results,
         execution_windows = mean_of execution_windows mmi_results,
         bio_proxies = mean_of bio_proxies mmi_results,
         z_leverage = mean_of z_leverage mmi_results,
         z_pressure = mean_of z_pressure mmi_results,
         z_fatigue = mean_of z_fatigue mmi_results,
         z_execution = mean_of z_execution mmi_results,
         z_bio = mean_of z_bio mmi_results,
         weight_leverage = w_lev, weight_pressure = w_pre, weight_fatigue = w_fat,
         weight_execution = w_exe, weight_bio = w_bio\<rparr>)"

text \<open>Two calculators with the same scalers, weights and feature builder; every calculator
  has the feature builder \<open>FeatureBuilder()\<close>.\<close>

definition same_configuration :: "MMICalculator \<Rightarrow> MMICalculator \<Rightarrow> bool" where
  "same_configuration c1 c2 \<longleftrightarrow>
     scaler_set c1 = scaler_set c2 \<and> weights c1 = weights c2 \<and>
     feature_builder c1 = feature_builder c2"


subsection \<open>Weights\<close>

text \<open>The weights \<open>MMICalculator.__init__\<close> holds after \<open>self.weights.update(custom_weights)\<close>,
  before it looks at their total.\<close>

definition merged_weights :: "(string \<times> real) list option \<Rightarrow> (string \<times> real) list" where
  "merged_weights cw = dict_update default_weights (case cw of None \<Rightarrow> [] | Some l \<Rightarrow> l)"

text \<open>A caller's weight set summing to 0.8, in the proportions of the defaults.\<close>

definition weights_08 :: "(string \<times> real) list" where
  "weights_08 =
     [(''leverage'', 0.28), (''pressure'', 0.16), (''fatigue'', 0.16), (''execution'', 0.12),
      (''bio'', 0.08)]"

section \<open>Facts about the sigmoid\<close>

lemma max_float_ge: "2 ^ 1000 \<le> max_float"
proof -
  have "(2::real) ^ 1000 \<le> 1 * 2 ^ 1000" by simp
  also have "\<dots> \<le> (2 ^ 53 - 1) * 2 ^ 971"
  proof -
    have "(2::real) ^ 1000 = 2 ^ 29 * 2 ^ 971" by (simp flip: power_add)
    moreover have "(2::real) ^ 29 \<le> 2 ^ 53 - 1" by simp
    ultimately show ?thesis by (simp add: mult_right_mono)
  qed
  finally show ?thesis by (simp add: max_float_def)
qed

lemma max_float_gt_one: "1 < max_float"
proof -
  have "(1::real) < 2 ^ 1000" by (rule one_less_power) simp_all
  with max_float_ge show ?thesis by linarith
qed

lemma overflow_neg:
  assumes "max_float < exp (- x)"
  shows "x < 0"
proof -
  have "1 < exp (- x)" using assms max_float_gt_one by linarith
  then have "0 < - x" by (simp only: one_less_exp_iff)
  then show ?thesis by simp
qed

lemma exp_500_le: "exp (500::real) \<le> 2 ^ 1000"
proof -
  have "exp (500::real) = exp (of_nat 500 * 1)" by simp
  also have "\<dots> = exp 1 ^ 500" by (rule exp_of_nat_mult)
  also have "\<dots> \<le> (4::real) ^ 500"
  proof (rule power_mono)
    have "exp (1::real) \<le> 3" by (rule exp_le)
    then show "exp (1::real) \<le> 4" by linarith
  qed simp
  also have "\<dots> = (2 ^ 2) ^ 500" by simp
  also have "\<dots> = 2 ^ 1000" by (simp only: power_mult [symmetric]) simp
  finally show ?thesis .
qed

lemma sigmoid_no_overflow:
  assumes "- 500 \<le> x"
  shows "sigmoid x = 1 / (1 + exp (- x))"
proof -
  have "exp (- x) \<le> exp 500" using assms by simp
  also have "\<dots> \<le> max_float" using exp_500_le max_float_ge by linarith
  finally show ?thesis by (simp add: sigmoid_def)
qed

lemma sigmoid_nonneg: "0 \<le> sigmoid x"
  by (simp add: sigmoid_def add_nonneg_nonneg)

lemma sigmoid_le_one: "sigmoid x \<le> 1"
proof -
  have "1 \<le> 1 + exp (- x)" by simp
  then have "1 / (1 + exp (- x)) \<le> 1" by (simp add: add_pos_pos)
  then show ?thesis by (simp add: sigmoid_def)
qed

lemma sigmoid_mono:
  assumes "x \<le> y"
  shows "sigmoid x \<le> sigmoid y"
proof (cases "exp (- y) > max_float")
  case True
  have "exp (- y) \<le> exp (- x)" using assms by simp
  with True have ox: "exp (- x) > max_float" by linarith
  have "y < 0" using True by (rule overflow_neg)
  with assms True ox show ?thesis by (simp add: sigmoid_def)
next
  case False
  show ?thesis
  proof (cases "exp (- x) > max_float")
    case True
    have "x < 0" using True by (rule overflow_neg)
    with True have "sigmoid x = 0" by (simp add: sigmoid_def)
    then show ?thesis by (simp add: sigmoid_nonneg)
  next
    case nx: False
    have "exp (- y) \<le> exp (- x)" using assms by simp
    then have "1 / (1 + exp (- x)) \<le> 1 / (1 + exp (- y))"
      by (intro divide_left_mono) (simp_all add: add_pos_pos)
    with False nx show ?thesis by (simp add: sigmoid_def)
  qed
qed

section \<open>Win probability: the code against the algorithm of the specification\<close>

lemma calculate_win_prob_unfold:
  "calculate_win_prob inn top_half os bases h a b =
     (if inn \<ge> 9 \<and> \<not> top_half \<and> h > a then 1
      else if inn > 9 \<and> top_half \<and> h \<noteq> a then (if h > a then 1 else 0)
      else if half_innings_remaining inn top_half = 0 then
        (if h > a then 1 else if h = a then 0.5 else 0)
      else wp_estimate inn top_half os bases (h - a) b)"
  by (simp only: calculate_win_prob_def Let_def half_innings_remaining_def effective_diff_def
      std_dev_of_def blended_def wp_estimate_def)

lemma half_innings_remaining_zero_iff:
  "half_innings_remaining inn top_half = 0 \<longleftrightarrow> inn = 9 \<and> top_half"
  unfolding half_innings_remaining_def by (cases top_half) (simp_all, presburger)

lemma spec_halfInningsRemaining_eq:
  "max 0.5 (spec_halfInningsRemaining inn top_half) =
     max 0.5 (real_of_int (half_innings_remaining inn top_half))"
  by (simp add: spec_halfInningsRemaining_def half_innings_remaining_def)

lemma spec_winProbability_unfold:
  "spec_winProbability inn top_half os bases h a b =
     (if \<not> top_half \<and> inn \<ge> 9 \<and> h > a then 1
      else if top_half \<and> inn > 9 \<and> h \<noteq> a then (if h > a then 1 else 0)
      else wp_estimate inn top_half os bases (h - a) b)"
proof -
  have bl: "(if \<bar>d\<bar> \<le> 2 \<and> inn \<le> 5 then 0.9 * w + 0.1 * 0.54 else w) = blended inn d w" for d w
    by (simp add: blended_def home_advantage_def)
  show ?thesis
    by (simp only: spec_winProbability_def Let_def bl spec_halfInningsRemaining_eq
        flip: effective_diff_def std_dev_of_def wp_estimate_def)
qed

text \<open>Away from the top of the ninth the code computes exactly steps 1 to 6.\<close>

lemma calculate_win_prob_agrees_with_spec:
  assumes "\<not> (inn = 9 \<and> top_half)"
  shows "calculate_win_prob inn top_half os bases h a b = spec_winProbability inn top_half os bases h a b"
proof -
  have "half_innings_remaining inn top_half \<noteq> 0"
    using assms by (simp only: half_innings_remaining_zero_iff) simp
  then show ?thesis
    by (simp add: calculate_win_prob_unfold spec_winProbability_unfold conj_commute)
qed

lemma get_run_expectancy_2_empty: "get_run_expectancy 2 empty_bases = 0.098"
  by (simp add: get_run_expectancy_def RUN_EXPECTANCY_MATRIX_def to_code_def empty_bases_def)

lemma sigmoid_pos: "- 500 \<le> x \<Longrightarrow> 0 < sigmoid x"
  by (simp add: sigmoid_no_overflow add_pos_pos)

lemma quotient_ge: "0 < d \<Longrightarrow> - 500 * d \<le> e \<Longrightarrow> - 500 \<le> e / (d::real)"
  by (simp add: pos_le_divide_eq)

lemma spec_top_ninth_positive: "0 < spec_winProbability 9 True 2 empty_bases 2 5 False"
proof -
  define d :: real where "d = 2 * sqrt 0.5"
  have s: "1 / 2 \<le> sqrt (0.5::real)"
    by (rule real_le_rsqrt) (simp add: power2_eq_square)
  then have d: "1 \<le> d" by (simp add: d_def)
  then have "- 500 * d \<le> - 3.098" by simp
  with d have "- 500 \<le> (- 3.098) / d" by (intro quotient_ge) simp_all
  then have "0 < sigmoid ((- 3.098) / d)" by (rule sigmoid_pos)
  moreover have "spec_winProbability 9 True 2 empty_bases 2 5 False = max 0 (min 1 (sigmoid ((- 3.098) / d)))"
    by (simp add: spec_winProbability_def spec_halfInningsRemaining_def get_run_expectancy_2_empty Let_def d_def)
  ultimately show ?thesis by simp
qed

text \<open>
  Claim C1. In the top of the ninth the raw count of remaining half-innings is 0, and the
  specification floors it to 0.5 and applies the sigmoid. The code instead takes its
  "game over" branch there: with two outs, bases empty and the home team behind 2 to 5 it
  returns exactly 0, while steps 2 to 6 give a positive probability.
\<close>

theorem calculate_win_prob_top_ninth_game_over:
  "calculate_win_prob 9 True 2 empty_bases 2 5 False = 0 \<and>
   0 < spec_winProbability 9 True 2 empty_bases 2 5 False"
proof
  show "calculate_win_prob 9 True 2 empty_bases 2 5 False = 0"
    by (simp add: calculate_win_prob_unfold half_innings_remaining_def)
  show "0 < spec_winProbability 9 True 2 empty_bases 2 5 False"
    by (rule spec_top_ninth_positive)
qed

section \<open>Scalers and their persistence\<close>

text \<open>The constructor never leaves a standard deviation of 0, and neither does \<open>fit\<close>,
  whatever the floating-point operations compute.\<close>

lemma Scaler_init_std: "std (Scaler_init m sd n) = (if sd = 0 then 1 else sd)"
  by (simp add: Scaler_init_def)

lemma Scaler_init_std_nonzero: "std (Scaler_init m sd n) \<noteq> 0"
  by (simp add: Scaler_init_def)

lemma fit_std_nonzero: "std s \<noteq> 0 \<Longrightarrow> std (fit ar s vals) \<noteq> 0"
  by (simp add: fit_def Let_def)

lemma fit_std:
  "vals \<noteq> [] \<Longrightarrow>
   std (fit ar s vals) =
     (let computed = fsqrt ar (fdiv ar (fsum ar (map (\<lambda>x. fsquare ar (fsub ar x
                         (fdiv ar (fsum ar vals) (real (length vals))))) vals)) (real (length vals)))
      in if computed = 0 then 1 else computed)"
  by (simp add: fit_def Let_def)

lemma transform_mean: "transform s (mean s) = 0"
  by (simp add: transform_def)

lemma transform_no_zero_division: "std s \<noteq> 0 \<Longrightarrow> transform s x = (x - mean s) / std s"
  by (simp add: transform_def)

text \<open>In exact arithmetic the round trip is the identity, and a constant list is fitted
  with standard deviation 1.\<close>

lemma inverse_transform_transform: "std s \<noteq> 0 \<Longrightarrow> inverse_transform s (transform s x) = x"
  by (simp add: transform_def inverse_transform_def)

lemma sum_list_constant: "(\<forall>v \<in> set vals. v = c) \<Longrightarrow> sum_list vals = real (length vals) * c"
  by (induction vals) (simp_all add: algebra_simps)

lemma sum_list_zero_map: "(\<forall>v \<in> set vals. f v = (0::real)) \<Longrightarrow> sum_list (map f vals) = 0"
  by (induction vals) simp_all

lemma fit_exact_constant:
  assumes "vals \<noteq> []" and "\<forall>v \<in> set vals. v = c"
  shows "mean (fit exact_arith s vals) = c" and "std (fit exact_arith s vals) = 1"
proof -
  have n: "real (length vals) \<noteq> 0" using assms(1) by simp
  have sm: "sum_list vals / real (length vals) = c"
    using n by (simp add: sum_list_constant [OF assms(2)])
  have "sum_list (map (\<lambda>x. (x - c) ^ 2) vals) = 0"
    by (rule sum_list_zero_map) (use assms(2) in simp)
  with sm assms(1) show "mean (fit exact_arith s vals) = c" and "std (fit exact_arith s vals) = 1"
    by (simp_all add: fit_def exact_arith_def Let_def)
qed

lemma from_dict_to_dict: "std s \<noteq> 0 \<Longrightarrow> from_dict (to_dict s) = Inr s"
  by (cases s)
     (simp add: from_dict_def to_dict_def json_get_def json_index_def json_number_def Scaler_init_def)

lemma load_scaler_saved:
  assumes "std a \<noteq> 0" "std b \<noteq> 0" "std c \<noteq> 0" "std d \<noteq> 0" "std e \<noteq> 0"
  defines "doc \<equiv> JObj [(''leverage'', to_dict a), (''pressure'', to_dict b), (''fatigue'', to_dict c),
                        (''execution'', to_dict d), (''bio_proxies'', to_dict e)]"
  shows "load_scaler doc ''leverage'' = Inr a"
    and "load_scaler doc ''pressure'' = Inr b"
    and "load_scaler doc ''fatigue'' = Inr c"
    and "load_scaler doc ''execution'' = Inr d"
    and "load_scaler doc ''bio_proxies'' = Inr e"
  using assms(1-5) by (simp_all add: doc_def load_scaler_def json_index_def from_dict_to_dict)

lemma load_document_save_document:
  assumes "scalers_nonzero s"
  shows "load_document (save_document s) = Inr s"
proof (cases s)
  case (fields a b c d e yr styp tp lu)
  with assms have nz: "std a \<noteq> 0" "std b \<noteq> 0" "std c \<noteq> 0" "std d \<noteq> 0" "std e \<noteq> 0"
    by (simp_all add: scalers_nonzero_def)
  show ?thesis
    unfolding fields
    by (cases yr; cases lu)
       (simp_all add: load_document_def save_document_def json_get_def then_load_def
          parse_last_updated_def truthy_def load_scaler_saved [OF nz])
qed

lemma MMIScalerSet_init_nonzero: "scalers_nonzero MMIScalerSet_init"
  by (simp add: scalers_nonzero_def MMIScalerSet_init_def Scaler_init_def)

lemma fit_all_nonzero:
  "scalers_nonzero s \<Longrightarrow> scalers_nonzero (fit_all ar s now l p f e b y t)"
  by (simp add: scalers_nonzero_def fit_all_def fit_std_nonzero)

lemma from_dict_nonzero: "from_dict d = Inr s \<Longrightarrow> std s \<noteq> 0"
  by (auto simp: from_dict_def Scaler_init_std_nonzero split: sum.splits option.splits json.splits)

lemma load_scaler_nonzero: "load_scaler d k = Inr s \<Longrightarrow> std s \<noteq> 0"
  by (auto simp: load_scaler_def from_dict_nonzero split: sum.splits)

lemma then_load_Inr:
  assumes "then_load r k = Inr v"
  shows "(\<exists>s. r = Inr s \<and> k (Some s) = Inr v) \<or> k None = Inr v"
  using assms by (auto simp: then_load_def split: sum.splits error.splits)

lemma load_document_nonzero:
  assumes "load_document d = Inr s"
  shows "scalers_nonzero s"
proof -
  from assms obtain sd l p f x b where
    l: "load_scaler sd ''leverage'' = Inr l" and p: "load_scaler sd ''pressure'' = Inr p"
    and f: "load_scaler sd ''fatigue'' = Inr f" and x: "load_scaler sd ''execution'' = Inr x"
    and b: "load_scaler sd ''bio_proxies'' = Inr b"
    and s: "leverage_scaler s = l" "pressure_scaler s = p" "fatigue_scaler s = f"
           "execution_scaler s = x" "bio_scaler s = b"
    unfolding load_document_def
    by (auto split: sum.splits option.splits dest!: then_load_Inr)
  from l p f x b s show ?thesis
    by (simp add: scalers_nonzero_def load_scaler_nonzero)
qed

text \<open>
  Claim C8. Saving a scaler set and loading the file again gives back the scaler set, in
  particular each of the five (mean, std) pairs unchanged; the document written has the
  two members \<open>metadata\<close> (four fields) and \<open>scalers\<close> (five named scalers, each with name,
  mean and std). The scaler set is one the data model allows: no standard deviation is 0,
  which every scaler set made by the constructor, \<open>fit\<close>, the defaults or \<open>load\<close> satisfies.
\<close>

theorem save_load_roundtrip:
  assumes "scalers_nonzero s"
  shows "load (save fs s file_path) file_path = Inr s \<and>
         (\<exists>metadata scalers.
            save fs s file_path file_path = Some (JObj [(''metadata'', JObj metadata), (''scalers'', JObj scalers)]) \<and>
            map fst metadata = [''season'', ''season_type'', ''total_pitches'', ''last_updated''] \<and>
            map fst scalers = [''leverage'', ''pressure'', ''fatigue'', ''execution'', ''bio_proxies''] \<and>
            map snd scalers = map to_dict [leverage_scaler s, pressure_scaler s, fatigue_scaler s,
                                           execution_scaler s, bio_scaler s])"
  using assms by (simp add: load_def save_def load_document_save_document) (simp add: save_document_def)

lemma create_default_scalers_nonzero: "scalers_nonzero (create_default_scalers y now)"
  by (simp add: scalers_nonzero_def create_default_scalers_def MMIScalerSet_init_def Scaler_init_def)

theorem save_load_roundtrip_witness:
  "scalers_nonzero (create_default_scalers 2024 0) \<and>
   load (save Map.empty (create_default_scalers 2024 0) ''scalers.json'') ''scalers.json''
     = Inr (create_default_scalers 2024 0)"
  using save_load_roundtrip [where s = "create_default_scalers 2024 0" and fs = Map.empty
          and file_path = "''scalers.json''"]
        create_default_scalers_nonzero [of 2024 0]
  by simp

section \<open>Player summaries\<close>


lemma sqrt2_ne_1: "sqrt 2 \<noteq> (1::real)"
proof
  assume "sqrt 2 = (1::real)"
  then have "(sqrt 2)\<^sup>2 = (1::real)\<^sup>2" by simp
  then show False by simp
qed

lemma population_std_example: "population_std [0, 2] = 1"
  by (simp add: population_std_def Let_def power2_eq_square)

lemma group_example:
  "group_by_player ''pitcher'' [sample_result ''p'' 0, sample_result ''p'' 2] []
     = [(''p'', [sample_result ''p'' 0, sample_result ''p'' 2])]"
  by (simp add: sample_result_def Let_def)

lemma summarize_example:
  "map_sum id (map std_mmi)
     (summarize_mmi_by_player 2024 [sample_result ''p'' 0, sample_result ''p'' 2] ''pitcher'' None ''regular'')
   = Inr [sqrt 2]"
  unfolding summarize_mmi_by_player_def group_example
  by (simp add: summarize_player_def bind_result_def statistics_mean_def statistics_median_def
      statistics_stdev_def Let_def sample_result_def power2_eq_square)

text \<open>
  Two results of one pitcher with \<open>mmi\<close> 0 and 2: the summary's standard deviation is
  \<open>sqrt 2\<close>, while the population standard deviation of the two values is 1.
\<close>

theorem summary_std_not_population_std:
  "map_sum id (map std_mmi)
     (summarize_mmi_by_player 2024 [sample_result ''p'' 0, sample_result ''p'' 2] ''pitcher'' None ''regular'')
     = Inr [sqrt 2] \<and>
   population_std (map mmi [sample_result ''p'' 0, sample_result ''p'' 2]) = 1 \<and>
   sqrt 2 \<noteq> (1::real)"
  using summarize_example population_std_example sqrt2_ne_1
  by (simp add: sample_result_def)

lemma sum_list_map_insort:
  "sum_list (map f (insort x xs)) = f x + sum_list (map f (xs::real list))" for f :: "real \<Rightarrow> real"
  by (induction xs) simp_all

lemma sum_list_map_sort:
  "sum_list (map f (sort xs)) = sum_list (map f (xs::real list))" for f :: "real \<Rightarrow> real"
  by (induction xs) (simp_all add: sum_list_map_insort)

lemma sum_list_sort: "sum_list (sort xs) = sum_list (xs::real list)"
  using sum_list_map_sort [of "\<lambda>x. x" xs] by simp

lemma statistics_stdev_sort:
  assumes "1 < length xs"
  shows "statistics_stdev (sort xs) = Inr (sample_std xs)"
  using assms
  by (simp add: statistics_stdev_def sample_std_def Let_def sum_list_sort sum_list_map_sort)

lemma sort_eq_Nil: "sort xs = [] \<longleftrightarrow> (xs::real list) = []"
  by (metis length_0_conv length_sort)

lemma summarize_player_result:
  assumes "results \<noteq> []"
  shows "\<exists>s. summarize_player y rol ssn styp pid results = Inr s \<and> player_id s = pid \<and>
             std_mmi s = (if 1 < length results then sample_std (map mmi results) else 0)"
proof -
  show ?thesis
    using assms
    by (simp add: summarize_player_def Let_def bind_result_def statistics_mean_def
        statistics_median_def statistics_stdev_sort sort_eq_Nil)
qed

lemma summarize_groups_result:
  "\<exists>ss. summarize_groups y rol ssn styp G = Inr ss \<and>
        map player_id ss = map fst (filter (\<lambda>(pid, l). l \<noteq> []) G) \<and>
        (\<forall>(pid, l) \<in> set G. l \<noteq> [] \<longrightarrow> (\<exists>s \<in> set ss. summarize_player y rol ssn styp pid l = Inr s))"
proof (induction G)
  case Nil
  show ?case by simp
next
  case (Cons g G)
  obtain pid l where g: "g = (pid, l)" by (cases g)
  from Cons obtain ss where ss: "summarize_groups y rol ssn styp G = Inr ss"
    "map player_id ss = map fst (filter (\<lambda>(pid, l). l \<noteq> []) G)"
    "\<forall>(pid, l) \<in> set G. l \<noteq> [] \<longrightarrow> (\<exists>s \<in> set ss. summarize_player y rol ssn styp pid l = Inr s)"
    by blast
  show ?case
  proof (cases "l = []")
    case True
    with ss g show ?thesis by simp
  next
    case False
    from summarize_player_result [OF False] obtain s where
      s: "summarize_player y rol ssn styp pid l = Inr s" "player_id s = pid" by blast
    have "summarize_groups y rol ssn styp (g # G) = Inr (s # ss)"
      using False s ss(1) g by (simp add: bind_result_def)
    moreover have "map player_id (s # ss) = map fst (filter (\<lambda>(pid, l). l \<noteq> []) (g # G))"
      using False s ss(2) g by simp
    moreover have "\<forall>(pid, l) \<in> set (g # G). l \<noteq> [] \<longrightarrow>
        (\<exists>s' \<in> set (s # ss). summarize_player y rol ssn styp pid l = Inr s')"
      using s ss(3) g by auto
    ultimately show ?thesis by blast
  qed
qed

lemma group_by_player_lookup:
  assumes "distinct (map fst acc)"
  shows "distinct (map fst (group_by_player rol rs acc)) \<and>
         (\<forall>pid. (case map_of (group_by_player rol rs acc) pid of Some l \<Rightarrow> l | None \<Rightarrow> [])
                = (case map_of acc pid of Some l \<Rightarrow> l | None \<Rightarrow> []) @ group_of rol pid rs)"
  using assms
proof (induction rs arbitrary: acc)
  case Nil
  then show ?case by (simp add: group_of_def)
next
  case (Cons r rs)
  show ?case
  proof (cases "MMIResult.role r = rol")
    case False
    with Cons show ?thesis by (simp add: group_of_def)
  next
    case True
    define k where "k = (if rol = ''pitcher'' then pitcher_id r else batter_id r)"
    define acc' where "acc' = AList.update k ((case map_of acc k of Some rs \<Rightarrow> rs | None \<Rightarrow> []) @ [r]) acc"
    have d: "distinct (map fst acc')" using Cons.prems by (simp add: acc'_def distinct_update)
    have step: "group_by_player rol (r # rs) acc = group_by_player rol rs acc'"
      using True by (simp add: Let_def k_def acc'_def)
    have look: "(case map_of acc' pid of Some l \<Rightarrow> l | None \<Rightarrow> [])
                 = (case map_of acc pid of Some l \<Rightarrow> l | None \<Rightarrow> []) @ group_of rol pid [r]" for pid
      using True by (auto simp: acc'_def update_conv' group_of_def player_of_def k_def)
    have g: "group_of rol pid (r # rs) = group_of rol pid [r] @ group_of rol pid rs" for pid
      by (simp add: group_of_def)
    from Cons.IH [OF d] show ?thesis
      unfolding step by (simp add: look g)
  qed
qed

text \<open>
  Claim C9, as the code has it. The summary never fails on a list of results; it has one
  entry per player with at least one result of the role, and the entry's standard deviation
  is the sample standard deviation (divisor \<open>N - 1\<close>) of the group's \<open>mmi\<close> values when the
  group has at least two results, and 0 when it has exactly one.
\<close>

theorem summary_std_is_sample_std:
  assumes "group_of rol pid results \<noteq> []"
  shows "\<exists>summaries s.
           summarize_mmi_by_player y results rol ssn styp = Inr summaries \<and>
           distinct (map player_id summaries) \<and>
           s \<in> set summaries \<and> player_id s = pid \<and>
           std_mmi s =
             (if 1 < length (group_of rol pid results)
              then sample_std (map mmi (group_of rol pid results)) else 0)"
proof -
  define G where "G = group_by_player rol results []"
  have "distinct (map fst ([] :: (string \<times> MMIResult list) list))" by simp
  from group_by_player_lookup [OF this, of rol results]
  have dG: "distinct (map fst G)"
    and lk: "\<And>p. (case map_of G p of Some l \<Rightarrow> l | None \<Rightarrow> []) = group_of rol p results"
    by (simp_all add: G_def)
  from lk [of pid] assms have m: "map_of G pid = Some (group_of rol pid results)"
    by (cases "map_of G pid") auto
  then have mem: "(pid, group_of rol pid results) \<in> set G" by (rule map_of_SomeD)
  obtain ss where ss: "summarize_groups y rol ssn styp G = Inr ss"
    "map player_id ss = map fst (filter (\<lambda>(pid, l). l \<noteq> []) G)"
    "\<forall>(pid, l) \<in> set G. l \<noteq> [] \<longrightarrow> (\<exists>s \<in> set ss. summarize_player y rol ssn styp pid l = Inr s)"
    using summarize_groups_result by blast
  from ss(3) mem assms obtain s where s: "s \<in> set ss"
    "summarize_player y rol ssn styp pid (group_of rol pid results) = Inr s" by blast
  from summarize_player_result [OF assms, of y rol ssn styp pid] s(2)
  have f: "player_id s = pid"
    "std_mmi s = (if 1 < length (group_of rol pid results)
                  then sample_std (map mmi (group_of rol pid results)) else 0)"
    by auto
  have "distinct (map player_id ss)"
    unfolding ss(2) using dG by (simp add: distinct_map_filter)
  with ss(1) s(1) f show ?thesis
    unfolding summarize_mmi_by_player_def G_def [symmetric] by blast
qed

theorem summary_std_is_sample_std_witness:
  "group_of ''pitcher'' ''p'' [sample_result ''p'' 0, sample_result ''p'' 2] \<noteq> [] \<and>
   (\<exists>summaries s.
      summarize_mmi_by_player 2024 [sample_result ''p'' 0, sample_result ''p'' 2] ''pitcher'' None ''regular''
        = Inr summaries \<and>
      s \<in> set summaries \<and> player_id s = ''p'' \<and> std_mmi s = sample_std [0, 2])"
proof -
  have g: "group_of ''pitcher'' ''p'' [sample_result ''p'' 0, sample_result ''p'' 2]
             = [sample_result ''p'' 0, sample_result ''p'' 2]"
    by (simp add: group_of_def player_of_def sample_result_def)
  then have ne: "group_of ''pitcher'' ''p'' [sample_result ''p'' 0, sample_result ''p'' 2] \<noteq> []"
    by simp
  from summary_std_is_sample_std [OF ne, of 2024 None "''regular''"] g ne
  show ?thesis by (simp add: sample_result_def) blast
qed

section \<open>The leverage cache\<close>


lemma digit_char_cases:
  assumes "d < 10"
  shows "d = 0 \<or> d = 1 \<or> d = 2 \<or> d = 3 \<or> d = 4 \<or> d = 5 \<or> d = 6 \<or> d = 7 \<or> d = 8 \<or> d = (9::nat)"
  using assms by arith

lemma digit_char_in: "d < 10 \<Longrightarrow> digit_char d \<in> set ''0123456789''"
  using digit_char_cases [of d] by (auto simp: digit_char_def)

lemma of_char_digit_char: "d < 10 \<Longrightarrow> (of_char (digit_char d) :: nat) = 48 + d"
  using digit_char_cases [of d] by (auto simp: digit_char_def)

lemma digit_char_inj:
  assumes "d < 10" and "e < 10" and "digit_char d = digit_char e"
  shows "d = e"
proof -
  have "(of_char (digit_char d) :: nat) = of_char (digit_char e)" using assms(3) by simp
  with assms(1,2) show ?thesis by (simp add: of_char_digit_char)
qed

lemma str_nat_digits: "set (str_nat n) \<subseteq> set ''0123456789''"
proof (induction n rule: str_nat.induct)
  case (1 n)
  show ?case
  proof (cases "n < 10")
    case True
    then show ?thesis using digit_char_in [of n] by (subst str_nat.simps) simp
  next
    case False
    have "n mod 10 < 10" by simp
    from digit_char_in [OF this] 1 [OF False] False show ?thesis
      by (subst str_nat.simps) simp
  qed
qed

lemma str_nat_nonempty: "str_nat n \<noteq> []"
  by (subst str_nat.simps) simp

lemma str_nat_small: "n < 10 \<Longrightarrow> str_nat n = [digit_char n]"
  by (subst str_nat.simps) simp

lemma str_nat_large: "\<not> n < 10 \<Longrightarrow> str_nat n = str_nat (n div 10) @ [digit_char (n mod 10)]"
  by (subst str_nat.simps) simp

lemma str_nat_inj: "str_nat n = str_nat m \<Longrightarrow> n = m"
proof (induction n arbitrary: m rule: str_nat.induct)
  case (1 n)
  show ?case
  proof (cases "n < 10")
    case n: True
    show ?thesis
    proof (cases "m < 10")
      case True
      from "1.prems" have "[digit_char n] = [digit_char m]"
        by (simp only: str_nat_small [OF n] str_nat_small [OF True])
      then have "digit_char n = digit_char m" by simp
      with n True show ?thesis by (rule digit_char_inj)
    next
      case False
      from "1.prems" have "[digit_char n] = str_nat (m div 10) @ [digit_char (m mod 10)]"
        by (simp only: str_nat_small [OF n] str_nat_large [OF False])
      then have "str_nat (m div 10) = []" by simp
      with str_nat_nonempty show ?thesis by blast
    qed
  next
    case n: False
    show ?thesis
    proof (cases "m < 10")
      case True
      from "1.prems" have "str_nat (n div 10) @ [digit_char (n mod 10)] = [digit_char m]"
        by (simp only: str_nat_small [OF True] str_nat_large [OF n])
      then have "str_nat (n div 10) = []" by simp
      with str_nat_nonempty show ?thesis by blast
    next
      case False
      from "1.prems" have "str_nat (n div 10) @ [digit_char (n mod 10)]
                           = str_nat (m div 10) @ [digit_char (m mod 10)]"
        by (simp only: str_nat_large [OF False] str_nat_large [OF n])
      then have e: "str_nat (n div 10) = str_nat (m div 10)"
        "digit_char (n mod 10) = digit_char (m mod 10)"
        by simp_all
      from "1.IH" [OF n e(1)] have "n div 10 = m div 10" .
      moreover from e(2) have "n mod 10 = m mod 10" by (intro digit_char_inj) simp_all
      ultimately show ?thesis by (metis div_mult_mod_eq)
    qed
  qed
qed

lemma str_nat_char: "c \<in> set (str_nat n) \<Longrightarrow> c \<in> set ''0123456789''"
  using str_nat_digits [of n] by blast

lemma str_nat_no_minus: "CHR ''-'' \<notin> set (str_nat n)"
proof
  assume "CHR ''-'' \<in> set (str_nat n)"
  then have "CHR ''-'' \<in> set ''0123456789''" by (rule str_nat_char)
  then show False by simp
qed

lemma str_nat_no_underscore: "CHR ''_'' \<notin> set (str_nat n)"
proof
  assume "CHR ''_'' \<in> set (str_nat n)"
  then have "CHR ''_'' \<in> set ''0123456789''" by (rule str_nat_char)
  then show False by simp
qed

lemma str_int_no_underscore: "CHR ''_'' \<notin> set (str_int i)"
  by (simp add: str_int_def str_nat_no_underscore)

lemma str_int_inj: "str_int i = str_int j \<Longrightarrow> i = j"
proof -
  assume e: "str_int i = str_int j"
  have hd_nat: "hd (str_nat n) \<noteq> CHR ''-''" for n
    using str_nat_no_minus [of n] str_nat_nonempty [of n] by (cases "str_nat n") auto
  show ?thesis
  proof (cases "i < 0")
    case i: True
    show ?thesis
    proof (cases "j < 0")
      case True
      with i e have "str_nat (nat (- i)) = str_nat (nat (- j))" by (simp add: str_int_def)
      then have "nat (- i) = nat (- j)" by (rule str_nat_inj)
      with i True show ?thesis by simp
    next
      case False
      with i e have "CHR ''-'' # str_nat (nat (- i)) = str_nat (nat j)" by (simp add: str_int_def)
      then have "hd (str_nat (nat j)) = CHR ''-''" by (metis list.sel(1))
      with hd_nat show ?thesis by blast
    qed
  next
    case i: False
    show ?thesis
    proof (cases "j < 0")
      case True
      with i e have "str_nat (nat i) = CHR ''-'' # str_nat (nat (- j))" by (simp add: str_int_def)
      then have "hd (str_nat (nat i)) = CHR ''-''" by (metis list.sel(1))
      with hd_nat show ?thesis by blast
    next
      case False
      with i e have "str_nat (nat i) = str_nat (nat j)" by (simp add: str_int_def)
      then have "nat i = nat j" by (rule str_nat_inj)
      with i False show ?thesis by simp
    qed
  qed
qed




lemma split_at_delimiter:
  assumes "xs @ c # r = ys @ c # r'" and "c \<notin> set xs" and "c \<notin> set ys"
  shows "xs = ys \<and> r = r'"
  using assms
proof (induction xs arbitrary: ys)
  case Nil
  then show ?case by (cases ys) auto
next
  case (Cons x xs)
  then show ?case by (cases ys) auto
qed

lemma str_bool_no_underscore: "CHR ''_'' \<notin> set (str_bool b)"
  by (simp add: str_bool_def)

lemma str_bool_inj: "str_bool a = str_bool b \<Longrightarrow> a = b"
  by (cases a; cases b) (simp_all add: str_bool_def)

lemma to_code_length: "length (to_code b) = 3"
  by (simp add: to_code_def)

lemma to_code_inj: "to_code a = to_code b \<Longrightarrow> a = (b::BaseState)"
  by (cases a; cases b) (simp add: to_code_def split: if_splits)

lemma split_at_length:
  assumes "length xs = length ys" and "xs @ us = ys @ vs"
  shows "xs = ys \<and> us = vs"
  using assms by simp

lemma make_cache_key_inj:
  assumes "make_cache_key p = make_cache_key q"
  shows "same_game_state p q"
proof -
  let ?u = "CHR ''_''"
  have k: "make_cache_key x =
      str_int (PitchEvent.inning x) @ ?u # (str_bool (top_of_inning x) @ ?u #
        (str_int (outs x) @ ?u # (to_code (base_state x) @ ?u #
          (str_int (home_score x) @ ?u # str_int (away_score x)))))" for x
    by (simp add: make_cache_key_def)
  from assms have e0: "str_int (PitchEvent.inning p) @ ?u # (str_bool (top_of_inning p) @ ?u #
        (str_int (outs p) @ ?u # (to_code (base_state p) @ ?u #
          (str_int (home_score p) @ ?u # str_int (away_score p))))) =
      str_int (PitchEvent.inning q) @ ?u # (str_bool (top_of_inning q) @ ?u #
        (str_int (outs q) @ ?u # (to_code (base_state q) @ ?u #
          (str_int (home_score q) @ ?u # str_int (away_score q)))))"
    by (simp only: k)
  from split_at_delimiter [OF e0 str_int_no_underscore str_int_no_underscore]
  have i: "str_int (PitchEvent.inning p) = str_int (PitchEvent.inning q)"
    and e1: "str_bool (top_of_inning p) @ ?u #
        (str_int (outs p) @ ?u # (to_code (base_state p) @ ?u #
          (str_int (home_score p) @ ?u # str_int (away_score p)))) =
      str_bool (top_of_inning q) @ ?u #
        (str_int (outs q) @ ?u # (to_code (base_state q) @ ?u #
          (str_int (home_score q) @ ?u # str_int (away_score q))))"
    by simp_all
  from split_at_delimiter [OF e1 str_bool_no_underscore str_bool_no_underscore]
  have t: "str_bool (top_of_inning p) = str_bool (top_of_inning q)"
    and e2: "str_int (outs p) @ ?u # (to_code (base_state p) @ ?u #
          (str_int (home_score p) @ ?u # str_int (away_score p))) =
        str_int (outs q) @ ?u # (to_code (base_state q) @ ?u #
          (str_int (home_score q) @ ?u # str_int (away_score q)))"
    by simp_all
  from split_at_delimiter [OF e2 str_int_no_underscore str_int_no_underscore]
  have o: "str_int (outs p) = str_int (outs q)"
    and e3: "to_code (base_state p) @ ?u # (str_int (home_score p) @ ?u # str_int (away_score p)) =
        to_code (base_state q) @ ?u # (str_int (home_score q) @ ?u # str_int (away_score q))"
    by simp_all
  have "length (to_code (base_state p)) = length (to_code (base_state q))"
    by (simp only: to_code_length)
  from split_at_length [OF this e3] have c: "to_code (base_state p) = to_code (base_state q)"
    and e4: "str_int (home_score p) @ ?u # str_int (away_score p) =
             str_int (home_score q) @ ?u # str_int (away_score q)"
    by simp_all
  from split_at_delimiter [OF e4 str_int_no_underscore str_int_no_underscore]
  have h: "str_int (home_score p) = str_int (home_score q)"
    and a: "str_int (away_score p) = str_int (away_score q)"
    by simp_all
  from i t o c h a show ?thesis
    by (simp add: same_game_state_def str_int_inj str_bool_inj)
qed

lemma make_cache_key_cong:
  assumes "same_game_state p q"
  shows "make_cache_key p = make_cache_key q"
  using assms by (simp add: same_game_state_def make_cache_key_def)

lemma make_cache_key_eq_iff: "make_cache_key p = make_cache_key q \<longleftrightarrow> same_game_state p q"
  using make_cache_key_inj make_cache_key_cong by blast

lemma leverage_of_pitch_cong:
  assumes "same_game_state p q"
  shows "leverage_of_pitch p = leverage_of_pitch q"
proof -
  from assms have "base_state p = base_state q"
    by (simp add: same_game_state_def to_code_inj)
  with assms show ?thesis by (simp add: same_game_state_def leverage_of_pitch_def)
qed

lemma cache_ok_init: "cache_ok LeverageIndexCalculator_init"
  by (simp add: cache_ok_def LeverageIndexCalculator_init_def)

lemma calculate_leverage_for_pitch_alt:
  "calculate_leverage_for_pitch c p =
     (case cache c (make_cache_key p) of
        Some v \<Rightarrow> (v, c)
      | None \<Rightarrow> (leverage_of_pitch p,
                  c\<lparr>cache := (cache c)(make_cache_key p \<mapsto> leverage_of_pitch p)\<rparr>))"
  by (cases "cache c (make_cache_key p)")
     (simp_all add: calculate_leverage_for_pitch_def leverage_of_pitch_def Let_def)

lemma calculate_leverage_for_pitch_ok:
  assumes "cache_ok c"
  shows "fst (calculate_leverage_for_pitch c p) = leverage_of_pitch p"
    and "cache_ok (snd (calculate_leverage_for_pitch c p))"
proof -
  show "fst (calculate_leverage_for_pitch c p) = leverage_of_pitch p"
  proof (cases "cache c (make_cache_key p)")
    case None
    then show ?thesis by (simp add: calculate_leverage_for_pitch_alt)
  next
    case (Some v)
    with assms have "v = leverage_of_pitch p" unfolding cache_ok_def by blast
    with Some show ?thesis by (simp add: calculate_leverage_for_pitch_alt)
  qed
  show "cache_ok (snd (calculate_leverage_for_pitch c p))"
  proof (cases "cache c (make_cache_key p)")
    case None
    have upd: "v = leverage_of_pitch q"
      if "((cache c)(make_cache_key p \<mapsto> leverage_of_pitch p)) (make_cache_key q) = Some v" for q v
    proof (cases "make_cache_key q = make_cache_key p")
      case True
      then have "same_game_state q p" by (simp only: make_cache_key_eq_iff)
      then have "leverage_of_pitch q = leverage_of_pitch p" by (rule leverage_of_pitch_cong)
      moreover from that True have "v = leverage_of_pitch p" by simp
      ultimately show ?thesis by simp
    next
      case False
      with that have "cache c (make_cache_key q) = Some v" by simp
      with assms show ?thesis unfolding cache_ok_def by blast
    qed
    show ?thesis
      unfolding cache_ok_def
    proof (intro allI impI)
      fix q v
      assume "cache (snd (calculate_leverage_for_pitch c p)) (make_cache_key q) = Some v"
      with None have "((cache c)(make_cache_key p \<mapsto> leverage_of_pitch p)) (make_cache_key q) = Some v"
        by (simp add: calculate_leverage_for_pitch_alt)
      then show "v = leverage_of_pitch q" by (rule upd)
    qed
  next
    case (Some v)
    with assms show ?thesis by (simp add: calculate_leverage_for_pitch_alt)
  qed
qed


text \<open>
  Claim C2. Two pitch events that agree on inning, half, outs, base-occupancy code, home score
  and away score get the same leverage index, whatever their other fields are: from the same
  calculator, from two calculators, and from one calculator asked twice in a row. The cache
  key of two pitches is equal exactly when they agree on these six fields.
\<close>

theorem leverage_depends_on_game_state_only:
  assumes "same_game_state p q" and "cache_ok c" and "cache_ok c'"
  shows "fst (calculate_leverage_for_pitch c p) = fst (calculate_leverage_for_pitch c' q) \<and>
         fst (calculate_leverage_for_pitch (snd (calculate_leverage_for_pitch c p)) q)
           = fst (calculate_leverage_for_pitch c p) \<and>
         make_cache_key p = make_cache_key q \<and>
         (\<forall>p' q'. make_cache_key p' = make_cache_key q' \<longleftrightarrow> same_game_state p' q')"
proof -
  have l: "leverage_of_pitch p = leverage_of_pitch q"
    using assms(1) by (rule leverage_of_pitch_cong)
  have c1: "cache_ok (snd (calculate_leverage_for_pitch c p))"
    using assms(2) by (rule calculate_leverage_for_pitch_ok(2))
  show ?thesis
    using l assms(1)
    by (simp add: calculate_leverage_for_pitch_ok(1) [OF assms(2)]
        calculate_leverage_for_pitch_ok(1) [OF assms(3)]
        calculate_leverage_for_pitch_ok(1) [OF c1] make_cache_key_eq_iff)
qed

theorem leverage_depends_on_game_state_only_witness:
  "same_game_state sample_pitch
     (sample_pitch\<lparr>PitchEvent.batter_id := ''9'', velocity := Some 95, attendance := Some 40000\<rparr>) \<and>
   cache_ok LeverageIndexCalculator_init \<and>
   fst (calculate_leverage_for_pitch LeverageIndexCalculator_init sample_pitch)
     = fst (calculate_leverage_for_pitch LeverageIndexCalculator_init
         (sample_pitch\<lparr>PitchEvent.batter_id := ''9'', velocity := Some 95, attendance := Some 40000\<rparr>)) \<and>
   make_cache_key sample_pitch
     = make_cache_key (sample_pitch\<lparr>PitchEvent.batter_id := ''9'', velocity := Some 95, attendance := Some 40000\<rparr>)"
proof -
  have s: "same_game_state sample_pitch
     (sample_pitch\<lparr>PitchEvent.batter_id := ''9'', velocity := Some 95, attendance := Some 40000\<rparr>)"
    by (simp add: same_game_state_def)
  from leverage_depends_on_game_state_only [OF s cache_ok_init cache_ok_init] s cache_ok_init
  show ?thesis by simp
qed
section \<open>The per-pitch and plate-appearance computations\<close>


lemma compute_pitch_mmi_unfold:
  "compute_pitch_mmi self clk p rol ctx =
     (if rol \<noteq> ''pitcher'' \<and> rol \<noteq> ''batter'' then
        (Inl (ValueError ''role must be pitcher or batter''), self, clk)
      else
        (case get_weights (weights self) of
           Inl e \<Rightarrow>
             (Inl e, self\<lparr>leverage_calc := snd (calculate_leverage_for_pitch (leverage_calc self) p)\<rparr>, clk)
         | Inr ws \<Rightarrow>
             (Inr (result_of_pitch (feature_builder self) (scaler_set self) ws
                     (fst (calculate_leverage_for_pitch (leverage_calc self) p)) p rol ctx (shd clk)),
              self\<lparr>leverage_calc := snd (calculate_leverage_for_pitch (leverage_calc self) p)\<rparr>,
              stl clk)))"
proof (cases "get_weights (weights self)")
  case (Inl e)
  then show ?thesis
    by (simp add: compute_pitch_mmi_def Let_def case_prod_beta)
next
  case (Inr ws)
  then show ?thesis
    by (simp add: compute_pitch_mmi_def result_of_pitch_def Let_def case_prod_beta)
qed

lemma compute_pitch_mmi_ok:
  assumes "rol = ''pitcher'' \<or> rol = ''batter''"
    and "get_weights (weights self) = Inr ws"
    and "cache_ok (leverage_calc self)"
  shows "compute_pitch_mmi self clk p rol ctx =
           (Inr (result_of_pitch (feature_builder self) (scaler_set self) ws (leverage_of_pitch p)
                   p rol ctx (shd clk)),
            after_pitches self [p], stl clk)"
  using assms(1,2) calculate_leverage_for_pitch_ok(1) [OF assms(3), of p]
  by (auto simp: compute_pitch_mmi_unfold)

lemma after_pitches_fields:
  "weights (after_pitches self ps) = weights self"
  "scaler_set (after_pitches self ps) = scaler_set self"
  "feature_builder (after_pitches self ps) = feature_builder self"
  by (induction ps arbitrary: self) simp_all

lemma after_pitches_cache_ok:
  "cache_ok (leverage_calc self) \<Longrightarrow> cache_ok (leverage_calc (after_pitches self ps))"
  by (induction ps arbitrary: self) (simp_all add: calculate_leverage_for_pitch_ok(2))

lemma compute_each_ok:
  assumes "rol = ''pitcher'' \<or> rol = ''batter''"
    and "get_weights (weights self) = Inr ws"
    and "cache_ok (leverage_calc self)"
  shows "compute_each self clk rol contexts i ps =
           (Inr (results_from (feature_builder self) (scaler_set self) ws rol contexts i clk ps),
            after_pitches self ps, sdrop (length ps) clk)"
  using assms(2,3)
proof (induction ps arbitrary: self clk i)
  case Nil
  show ?case by simp
next
  case (Cons p ps)
  let ?self' = "after_pitches self [p]"
  have w: "get_weights (weights ?self') = Inr ws" using Cons.prems(1) by simp
  have c: "cache_ok (leverage_calc ?self')"
    using Cons.prems(2) by (simp add: calculate_leverage_for_pitch_ok(2))
  have one: "compute_pitch_mmi self clk p rol (context_at contexts i) =
           (Inr (result_of_pitch (feature_builder self) (scaler_set self) ws (leverage_of_pitch p)
                   p rol (context_at contexts i) (shd clk)),
            ?self', stl clk)"
    using assms(1) Cons.prems by (rule compute_pitch_mmi_ok)
  have rest: "compute_each ?self' (stl clk) rol contexts (Suc i) ps =
           (Inr (results_from (feature_builder self) (scaler_set self) ws rol contexts (Suc i) (stl clk) ps),
            after_pitches ?self' ps, sdrop (length ps) (stl clk))"
    using Cons.IH [OF w c, of "stl clk" "Suc i"] by simp
  show ?case
    using one rest by (simp add: context_at_def [symmetric] Let_def)
qed



lemma result_of_pitch_fields:
  "leverage_index (components (result_of_pitch fb ss ws lev p rol ctx t)) = lev"
  "weights_of (components (result_of_pitch fb ss ws lev p rol ctx t)) = ws"
  "timestamp (result_of_pitch fb ss ws lev p rol ctx t) = t"
  by (simp_all add: result_of_pitch_def Let_def case_prod_beta weights_of_def)

lemma result_of_pitch_timestamp:
  "(result_of_pitch fb ss ws lev p rol ctx t)\<lparr>timestamp := t'\<rparr> = result_of_pitch fb ss ws lev p rol ctx t'"
  by (simp add: result_of_pitch_def Let_def case_prod_beta)


lemma results_from_length [simp]: "length (results_from fb ss ws rol contexts i clk ps) = length ps"
  by (induction ps arbitrary: i clk) simp_all






lemma compute_pa_mmi_mean:
  assumes "rol = ''pitcher'' \<or> rol = ''batter''"
    and "get_weights (weights self) = Inr ws"
    and "cache_ok (leverage_calc self)"
    and "pitches = fp # rest"
  shows "compute_pa_mmi self clk pitches rol ''mean'' contexts =
           (Inr (pa_result_of fp (length pitches) rol ''mean''
                   (sum_list (map mmi (results_from (feature_builder self) (scaler_set self) ws rol contexts 0 clk pitches))
                      / real (length (results_from (feature_builder self) (scaler_set self) ws rol contexts 0 clk pitches)))
                   (mean_components ws
                      (results_from (feature_builder self) (scaler_set self) ws rol contexts 0 clk pitches))
                   (shd (sdrop (length pitches) clk))),
            after_pitches self pitches, stl (sdrop (length pitches) clk))"
proof -
  obtain a b c d e where ws: "ws = (a, b, c, d, e)" by (cases ws) auto
  have ce: "compute_each self clk rol contexts 0 (fp # rest) =
      (Inr (results_from (feature_builder self) (scaler_set self) ws rol contexts 0 clk (fp # rest)),
       after_pitches self (fp # rest), sdrop (length (fp # rest)) clk)"
    using assms(1-3) by (rule compute_each_ok)
  have w': "get_weights (weights (after_pitches self (fp # rest))) = Inr (a, b, c, d, e)"
    using assms(2) ws by (simp only: after_pitches_fields)
  show ?thesis
    unfolding assms(4)
    by (subst compute_pa_mmi.simps)
       (simp only: ce w' ws list.case prod.case sum.case Let_def mean_components_def
          if_False if_True refl list.simps char.inject simp_thms)
qed

lemma ticking_clock_readings:
  "shd (ticking_clock t) = t" "stl (ticking_clock t) = ticking_clock (t + 1)"
  by (simp_all add: ticking_clock_def)

section \<open>Weighted aggregation without leverage\<close>





lemma get_weights_default: "get_weights default_weights = Inr (0.35, 0.20, 0.20, 0.15, 0.10)"
  by (simp add: get_weights_def default_weights_def)



section \<open>Determinism of the per-pitch computation\<close>


lemma MMICalculator_init_default: "MMICalculator_init 2024 0 None None = Inr default_calculator"
  by (simp add: MMICalculator_init_def default_calculator_def default_weights_def Let_def)

lemma after_one_pitch:
  "same_configuration c (after_pitches c ps)"
  by (simp add: same_configuration_def after_pitches_fields)

lemma compute_pitch_mmi_state:
  "fst (snd (compute_pitch_mmi c clk p rol ctx)) = c \<or>
   fst (snd (compute_pitch_mmi c clk p rol ctx)) = after_pitches c [p]"
  by (simp add: compute_pitch_mmi_unfold split: sum.splits)

text \<open>
  Claim C4, as the code has it. Two calls of \<open>compute_pitch_mmi\<close> with the same pitch, role
  and context, on calculators with the same scalers, weights and feature builder, return
  results (or the same exception) that agree in every field except \<open>timestamp\<close>, which is
  the clock reading taken when the result is built. The calculator a call leaves behind has
  the same configuration and a sound cache, so the same holds for every later call.
\<close>

theorem compute_pitch_mmi_deterministic_up_to_timestamp:
  assumes "same_configuration c1 c2"
    and "cache_ok (leverage_calc c1)" and "cache_ok (leverage_calc c2)"
  shows "map_sum id (\<lambda>r. r\<lparr>timestamp := t\<rparr>) (fst (compute_pitch_mmi c1 clk1 p rol ctx))
           = map_sum id (\<lambda>r. r\<lparr>timestamp := t\<rparr>) (fst (compute_pitch_mmi c2 clk2 p rol ctx)) \<and>
         map_sum id timestamp (fst (compute_pitch_mmi c1 clk1 p rol ctx))
           = map_sum id (\<lambda>r. shd clk1) (fst (compute_pitch_mmi c1 clk1 p rol ctx)) \<and>
         same_configuration c1 (fst (snd (compute_pitch_mmi c1 clk1 p rol ctx))) \<and>
         cache_ok (leverage_calc (fst (snd (compute_pitch_mmi c1 clk1 p rol ctx))))"
proof -
  have l1: "fst (calculate_leverage_for_pitch (leverage_calc c1) p) = leverage_of_pitch p"
    using assms(2) by (rule calculate_leverage_for_pitch_ok(1))
  have l2: "fst (calculate_leverage_for_pitch (leverage_calc c2) p) = leverage_of_pitch p"
    using assms(3) by (rule calculate_leverage_for_pitch_ok(1))
  have k: "cache_ok (snd (calculate_leverage_for_pitch (leverage_calc c1) p))"
    using assms(2) by (rule calculate_leverage_for_pitch_ok(2))
  from assms(1) have cfg: "scaler_set c1 = scaler_set c2" "weights c1 = weights c2"
    "feature_builder c1 = feature_builder c2"
    by (simp_all add: same_configuration_def)
  show ?thesis
    using k assms(2)
    by (cases "get_weights (weights c2)")
       (simp_all add: compute_pitch_mmi_unfold l1 l2 cfg result_of_pitch_timestamp
          result_of_pitch_fields same_configuration_def)
qed

theorem compute_pitch_mmi_deterministic_up_to_timestamp_witness:
  "same_configuration default_calculator default_calculator \<and>
   cache_ok (leverage_calc default_calculator) \<and>
   map_sum id (\<lambda>r. r\<lparr>timestamp := 0\<rparr>)
     (fst (compute_pitch_mmi default_calculator (ticking_clock 0) sample_pitch ''pitcher'' None))
   = map_sum id (\<lambda>r. r\<lparr>timestamp := 0\<rparr>)
     (fst (compute_pitch_mmi default_calculator (ticking_clock 7) sample_pitch ''pitcher'' None))"
proof -
  have s: "same_configuration default_calculator default_calculator"
    by (simp add: same_configuration_def)
  have c: "cache_ok (leverage_calc default_calculator)"
    by (simp add: default_calculator_def cache_ok_init)
  from compute_pitch_mmi_deterministic_up_to_timestamp
         [OF s c c, of 0 "ticking_clock 0" sample_pitch "''pitcher''" None "ticking_clock 7"] s c
  show ?thesis by simp
qed

text \<open>
  Two identical calls in a row on the default calculator, the clock advancing between them:
  the two results differ (in their timestamps).
\<close>

theorem compute_pitch_mmi_timestamps_differ:
  "fst (compute_pitch_mmi default_calculator (ticking_clock 0) sample_pitch ''pitcher'' None)
   \<noteq> fst (compute_pitch_mmi
            (fst (snd (compute_pitch_mmi default_calculator (ticking_clock 0) sample_pitch ''pitcher'' None)))
            (snd (snd (compute_pitch_mmi default_calculator (ticking_clock 0) sample_pitch ''pitcher'' None)))
            sample_pitch ''pitcher'' None)"
proof -
  have r: "''pitcher'' = ''pitcher'' \<or> ''pitcher'' = ''batter''" by simp
  have w: "get_weights (weights default_calculator) = Inr (0.35, 0.20, 0.20, 0.15, 0.10)"
    by (simp add: default_calculator_def get_weights_default)
  have c: "cache_ok (leverage_calc default_calculator)"
    by (simp add: default_calculator_def cache_ok_init)
  let ?c' = "after_pitches default_calculator [sample_pitch]"
  have w': "get_weights (weights ?c') = Inr (0.35, 0.20, 0.20, 0.15, 0.10)"
    using w by (simp only: after_pitches_fields)
  have c': "cache_ok (leverage_calc ?c')" using c by (rule after_pitches_cache_ok)
  note first = compute_pitch_mmi_ok [OF r w c, of "ticking_clock 0" sample_pitch None]
  note second = compute_pitch_mmi_ok [OF r w' c', of "ticking_clock 1" sample_pitch None]
  show ?thesis
  proof
    assume "fst (compute_pitch_mmi default_calculator (ticking_clock 0) sample_pitch ''pitcher'' None)
      = fst (compute_pitch_mmi
            (fst (snd (compute_pitch_mmi default_calculator (ticking_clock 0) sample_pitch ''pitcher'' None)))
            (snd (snd (compute_pitch_mmi default_calculator (ticking_clock 0) sample_pitch ''pitcher'' None)))
            sample_pitch ''pitcher'' None)"
    then have "result_of_pitch (feature_builder default_calculator) (scaler_set default_calculator)
                 (0.35, 0.20, 0.20, 0.15, 0.10) (leverage_of_pitch sample_pitch) sample_pitch
                 ''pitcher'' None 0
             = result_of_pitch (feature_builder ?c') (scaler_set ?c')
                 (0.35, 0.20, 0.20, 0.15, 0.10) (leverage_of_pitch sample_pitch) sample_pitch
                 ''pitcher'' None 1"
      unfolding first fst_conv snd_conv ticking_clock_readings
      using second by (simp add: ticking_clock_readings)
    then have "timestamp (result_of_pitch (feature_builder default_calculator) (scaler_set default_calculator)
                 (0.35, 0.20, 0.20, 0.15, 0.10) (leverage_of_pitch sample_pitch) sample_pitch
                 ''pitcher'' None 0)
             = timestamp (result_of_pitch (feature_builder ?c') (scaler_set ?c')
                 (0.35, 0.20, 0.20, 0.15, 0.10) (leverage_of_pitch sample_pitch) sample_pitch
                 ''pitcher'' None 1)"
      by (rule arg_cong)
    then show False by (simp only: result_of_pitch_fields)
  qed
qed

section \<open>The weights of a calculator\<close>


lemma update_keys_mem:
  "k \<in> set (map fst d) \<Longrightarrow> map fst (AList.update k v d) = map fst d"
  by (simp add: update_keys)

lemma dict_update_keys:
  "set (map fst cw) \<subseteq> set (map fst d) \<Longrightarrow> map fst (dict_update d cw) = map fst d"
proof (induction cw arbitrary: d)
  case Nil
  show ?case by simp
next
  case (Cons kv cw)
  obtain k v where kv: "kv = (k, v)" by (cases kv)
  from Cons.prems kv have k: "k \<in> set (map fst d)" by simp
  have m: "map fst (AList.update k v d) = map fst d" using k by (rule update_keys_mem)
  from Cons.prems kv have "set (map fst cw) \<subseteq> set (map fst (AList.update k v d))"
    by (simp only: m) simp
  from Cons.IH [OF this] m kv show ?case by simp
qed

lemma five_keys_shape:
  assumes "map fst m = component_keys"
  shows "\<exists>a b c d e. m = [(''leverage'', a), (''pressure'', b), (''fatigue'', c),
                           (''execution'', d), (''bio'', e)]"
  using assms by (auto simp: component_keys_def map_eq_Cons_conv)

lemma get_weights_five:
  "get_weights [(''leverage'', a), (''pressure'', b), (''fatigue'', c), (''execution'', d), (''bio'', e)]
     = Inr (a, b, c, d, e)"
  by (simp add: get_weights_def)

lemma merged_weights_shape:
  assumes "set (map fst cw) \<subseteq> set component_keys"
  shows "\<exists>a b c d e. dict_update default_weights cw =
           [(''leverage'', a), (''pressure'', b), (''fatigue'', c), (''execution'', d), (''bio'', e)]"
proof -
  have dk: "map fst default_weights = component_keys"
    by (simp add: default_weights_def component_keys_def)
  with assms have "map fst (dict_update default_weights cw) = component_keys"
    by (simp add: dict_update_keys)
  then show ?thesis by (rule five_keys_shape)
qed

lemma MMICalculator_init_weights:
  assumes "MMICalculator_init y now ss cw = Inr calc"
  shows "weights calc =
           (let m = dict_update default_weights (case cw of None \<Rightarrow> [] | Some l \<Rightarrow> l);
                t = sum_list (map snd m)
            in if \<bar>t - 1\<bar> > 0.01 then map (\<lambda>(k, v). (k, v / t)) m else m) \<and>
         sum_list (map snd (dict_update default_weights (case cw of None \<Rightarrow> [] | Some l \<Rightarrow> l))) \<noteq> 0 \<and>
         leverage_calc calc = LeverageIndexCalculator_init"
proof -
  have m: "(case cw of None \<Rightarrow> default_weights
            | Some l \<Rightarrow> if l \<noteq> [] then dict_update default_weights l else default_weights)
          = dict_update default_weights (case cw of None \<Rightarrow> [] | Some l \<Rightarrow> l)"
    by (cases cw) auto
  show ?thesis
    using assms unfolding MMICalculator_init_def Let_def m
    by (auto split: if_splits)
qed

lemma max_by_mmi_mem: "max_by_mmi b rs \<in> set (b # rs)"
proof (induction rs arbitrary: b)
  case Nil
  show ?case by (simp only: max_by_mmi.simps list.set insertI1)
next
  case (Cons r rs)
  show ?case
  proof (cases "mmi b < mmi r")
    case True
    have "max_by_mmi r rs \<in> set (r # rs)" by (rule Cons.IH)
    then have "max_by_mmi r rs \<in> set (b # r # rs)" by (simp only: list.set) blast
    with True show ?thesis by (simp only: max_by_mmi.simps if_True)
  next
    case False
    have "max_by_mmi b rs \<in> set (b # rs)" by (rule Cons.IH)
    then have "max_by_mmi b rs \<in> set (b # r # rs)" by (simp only: list.set) blast
    with False show ?thesis by (simp only: max_by_mmi.simps if_False)
  qed
qed

lemma results_from_weights:
  "r \<in> set (results_from fb ss ws rol contexts i clk ps) \<Longrightarrow> weights_of (components r) = ws"
  by (induction ps arbitrary: i clk) (auto simp: result_of_pitch_fields)

lemma weights_of_pa_result:
  "weights_of (components (pa_result_of fp n rol agg v comps t)) = weights_of comps"
  by (simp add: pa_result_of_def)

lemma weights_of_mean_components: "weights_of (mean_components ws rs) = ws"
  by (cases ws) (simp add: mean_components_def weights_of_def)

lemma compute_pa_mmi_mean_weights:
  assumes "rol = ''pitcher'' \<or> rol = ''batter''"
    and "get_weights (weights self) = Inr ws"
    and "cache_ok (leverage_calc self)"
    and "pitches = fp # rest"
    and "fst (compute_pa_mmi self clk pitches rol ''mean'' contexts) = Inr r"
  shows "weights_of (components r) = ws"
  using assms(5)
  unfolding compute_pa_mmi_mean [OF assms(1-4)]
  by (auto simp: weights_of_pa_result weights_of_mean_components)

lemma compute_pa_mmi_invalid_role:
  assumes "\<not> (rol = ''pitcher'' \<or> rol = ''batter'')"
  shows "\<exists>e. fst (compute_pa_mmi self clk pitches rol agg contexts) = Inl e"
proof (cases pitches)
  case Nil
  then show ?thesis by (subst compute_pa_mmi.simps) simp
next
  case (Cons fp rest)
  have "compute_pitch_mmi self clk fp rol ctx =
          (Inl (ValueError ''role must be pitcher or batter''), self, clk)" for ctx
    using assms by (simp add: compute_pitch_mmi_unfold)
  then have "compute_each self clk rol contexts 0 (fp # rest) =
          (Inl (ValueError ''role must be pitcher or batter''), self, clk)"
    by (simp add: Let_def)
  then show ?thesis
    unfolding Cons by (subst compute_pa_mmi.simps) simp
qed



lemma compute_pa_mmi_weights:
  assumes "get_weights (weights self) = Inr ws"
    and "cache_ok (leverage_calc self)"
    and "fst (compute_pa_mmi self clk pitches rol agg contexts) = Inr r"
  shows "weights_of (components r) = ws"
proof -
  have role: "rol = ''pitcher'' \<or> rol = ''batter''"
    using compute_pa_mmi_invalid_role [of rol self clk pitches agg contexts] assms(3) by auto
  have "pitches \<noteq> []"
  proof
    assume "pitches = []"
    then have "fst (compute_pa_mmi self clk pitches rol agg contexts)
                 = Inl (ValueError ''Cannot compute PA MMI with no pitches'')"
      by (subst compute_pa_mmi.simps) simp
    with assms(3) show False by simp
  qed
  then obtain fp rest where p: "pitches = fp # rest" by (cases pitches) auto
  obtain a b c d e where ws: "ws = (a, b, c, d, e)" by (cases ws) auto
  define R where "R = results_from (feature_builder self) (scaler_set self) ws rol contexts 0 clk (fp # rest)"
  define self' where "self' = after_pitches self (fp # rest)"
  define clk' where "clk' = sdrop (length (fp # rest)) clk"
  have ce: "compute_each self clk rol contexts 0 (fp # rest) = (Inr R, self', clk')"
    unfolding R_def self'_def clk'_def using role assms(1,2) by (rule compute_each_ok)
  have w': "get_weights (weights self') = Inr (a, b, c, d, e)"
    unfolding self'_def using assms(1) ws by (simp only: after_pitches_fields)
  have c': "cache_ok (leverage_calc self')"
    unfolding self'_def using assms(2) by (rule after_pitches_cache_ok)
  have mean': "weights_of (components r') = ws"
    if "fst (compute_pa_mmi self' clk' (fp # rest) rol ''mean'' contexts) = Inr r'" for r'
    using role w' c' refl that unfolding ws by (rule compute_pa_mmi_mean_weights)
  have mxw: "weights_of (components (max_by_mmi r0 rs)) = ws" if "R = r0 # rs" for r0 rs
  proof -
    have "max_by_mmi r0 rs \<in> set R" unfolding that by (rule max_by_mmi_mem)
    then show ?thesis unfolding R_def by (rule results_from_weights)
  qed
  define tot where "tot = sum_list (map (\<lambda>r. leverage_index (components r)) R)"
  define wc where "wc =
     \<lparr>leverage_index = weighted_of leverage_index R tot,
      pressure_score = weighted_of pressure_score R tot,
      fatigue_score = weighted_of fatigue_score R tot,
      execution_windows = weighted_of execution_windows R tot,
      bio_proxies = weighted_of bio_proxies R tot,
      z_leverage = weighted_of z_leverage R tot,
      z_pressure = weighted_of z_pressure R tot,
      z_fatigue = weighted_of z_fatigue R tot,
      z_execution = weighted_of z_execution R tot,
      z_bio = weighted_of z_bio R tot,
      weight_leverage = a, weight_pressure = b, weight_fatigue = c,
      weight_execution = d, weight_bio = e\<rparr>"
  have wcw: "weights_of wc = ws" by (simp add: wc_def weights_of_def ws)
  have unf: "agg \<noteq> ''mean'' \<Longrightarrow> compute_pa_mmi self clk (fp # rest) rol agg contexts =
      (if agg = ''max'' then
         (case R of
            [] \<Rightarrow> (Inl (ValueError ''max() arg is an empty sequence''), self', clk')
          | r # rs \<Rightarrow> (Inr (max_by_mmi r rs), self', clk'))
       else if agg = ''weighted'' then
         (if tot = 0 then
            compute_pa_mmi self' clk' (fp # rest) rol ''mean'' contexts
          else
            (Inr (pa_result_of fp (length (fp # rest)) rol ''weighted''
                   (sum_list (map (\<lambda>r. mmi r * leverage_index (components r) / tot) R))
                   wc (shd clk')),
             self', stl clk'))
       else (Inl (ValueError ''Unknown aggregation''), self', clk'))"
    unfolding tot_def wc_def
    by (subst compute_pa_mmi.simps)
       (simp only: ce w' list.case prod.case sum.case Let_def if_False)
  consider (mx) "agg = ''max''" | (mean) "agg = ''mean''" | (wt) "agg = ''weighted''"
    | (other) "agg \<noteq> ''max''" "agg \<noteq> ''mean''" "agg \<noteq> ''weighted''" by blast
  then show ?thesis
  proof cases
    case mx
    then have nm: "agg \<noteq> ''mean''" by simp
    show ?thesis
    proof (cases R)
      case Nil
      with mx assms(3) show ?thesis unfolding p unf [OF nm] by simp
    next
      case (Cons r0 rs)
      with mx assms(3) have "r = max_by_mmi r0 rs" unfolding p unf [OF nm] by simp
      with mxw [OF Cons] show ?thesis by (simp only:)
    qed
  next
    case mean
    with assms(3) show ?thesis
      unfolding p using compute_pa_mmi_mean_weights [OF role assms(1,2) refl] by blast
  next
    case wt
    then have nm: "agg \<noteq> ''mean''" by simp
    show ?thesis
    proof (cases "tot = 0")
      case True
      with wt assms(3) have "fst (compute_pa_mmi self' clk' (fp # rest) rol ''mean'' contexts) = Inr r"
        unfolding p unf [OF nm] by simp
      then show ?thesis by (rule mean')
    next
      case False
      with wt assms(3) have "r = pa_result_of fp (length (fp # rest)) rol ''weighted''
                   (sum_list (map (\<lambda>r. mmi r * leverage_index (components r) / tot) R))
                   wc (shd clk')"
        unfolding p unf [OF nm] by simp
      then show ?thesis by (simp only: weights_of_pa_result wcw)
    qed
  next
    case other
    with assms(3) show ?thesis unfolding p unf [OF other(2)] by simp
  qed
qed



lemma compute_pitch_mmi_weights:
  assumes "get_weights (weights self) = Inr ws"
    and "fst (compute_pitch_mmi self clk p rol ctx) = Inr r"
  shows "weights_of (components r) = ws"
  using assms
  by (auto simp: compute_pitch_mmi_unfold result_of_pitch_fields split: if_splits)

lemma MMICalculator_init_merged:
  assumes "MMICalculator_init y now ss cw = Inr calc"
  shows "weights calc =
           (if \<bar>sum_list (map snd (merged_weights cw)) - 1\<bar> > 0.01
            then map (\<lambda>(k, v). (k, v / sum_list (map snd (merged_weights cw)))) (merged_weights cw)
            else merged_weights cw)"
    and "leverage_calc calc = LeverageIndexCalculator_init"
    and "\<bar>sum_list (map snd (merged_weights cw)) - 1\<bar> > 0.01 \<Longrightarrow> sum_list (map snd (merged_weights cw)) \<noteq> 0"
proof -
  have m: "(case cw of None \<Rightarrow> default_weights
            | Some l \<Rightarrow> if l \<noteq> [] then dict_update default_weights l else default_weights)
          = merged_weights cw"
    by (cases cw) (auto simp: merged_weights_def)
  from assms show "weights calc =
           (if \<bar>sum_list (map snd (merged_weights cw)) - 1\<bar> > 0.01
            then map (\<lambda>(k, v). (k, v / sum_list (map snd (merged_weights cw)))) (merged_weights cw)
            else merged_weights cw)"
    unfolding MMICalculator_init_def Let_def m by (auto split: if_splits)
  from assms show "leverage_calc calc = LeverageIndexCalculator_init"
    unfolding MMICalculator_init_def Let_def m by (auto split: if_splits)
  from assms show "\<bar>sum_list (map snd (merged_weights cw)) - 1\<bar> > 0.01 \<Longrightarrow> sum_list (map snd (merged_weights cw)) \<noteq> 0"
    unfolding MMICalculator_init_def Let_def m by (auto split: if_splits)
qed

text \<open>
  Claim C5, as the code has it. The components of every result the calculator builds, per
  pitch or per plate appearance, carry the calculator's five weights. With the default
  weights, and whenever the total of the merged weights (the defaults overridden by the
  caller's values for the five component keys) is more than 0.01 away from 1, each merged
  weight is divided by the total, so the five weights sum to 1 within 1e-9 and keep their
  proportions; a caller's set summing to 0.8 is such a case. When the total is less than 0.01
  away from 1 the merged weights are kept as they are, and their sum is that total.
\<close>

theorem calculator_weights:
  assumes "MMICalculator_init y now ss cw = Inr calc"
    and "set (map fst (case cw of None \<Rightarrow> [] | Some l \<Rightarrow> l)) \<subseteq> set component_keys"
  shows "\<exists>a b c d e.
           get_weights (weights calc) = Inr (a, b, c, d, e) \<and>
           (fst (compute_pitch_mmi calc clk p rol ctx) = Inr r \<longrightarrow>
              weights_of (components r) = (a, b, c, d, e)) \<and>
           (fst (compute_pa_mmi calc clk ps rol agg ctxs) = Inr r' \<longrightarrow>
              weights_of (components r') = (a, b, c, d, e)) \<and>
           (cw = None \<longrightarrow> \<bar>a + b + c + d + e - 1\<bar> \<le> 1 / 10 ^ 9) \<and>
           (\<bar>sum_list (map snd (merged_weights cw)) - 1\<bar> > 0.01 \<longrightarrow>
              \<bar>a + b + c + d + e - 1\<bar> \<le> 1 / 10 ^ 9 \<and>
              weights calc = map (\<lambda>(k, v). (k, v / sum_list (map snd (merged_weights cw))))
                               (merged_weights cw)) \<and>
           (\<bar>sum_list (map snd (merged_weights cw)) - 1\<bar> < 0.01 \<longrightarrow>
              weights calc = merged_weights cw \<and>
              a + b + c + d + e = sum_list (map snd (merged_weights cw)))"
proof -
  define t where "t = sum_list (map snd (merged_weights cw))"
  from merged_weights_shape [OF assms(2)] obtain a0 b0 c0 d0 e0 where
    m: "merged_weights cw = [(''leverage'', a0), (''pressure'', b0), (''fatigue'', c0),
                             (''execution'', d0), (''bio'', e0)]"
    unfolding merged_weights_def by blast
  have t: "t = a0 + b0 + c0 + d0 + e0" by (simp add: t_def m)
  note init = MMICalculator_init_merged [OF assms(1), folded t_def]
  have ok: "cache_ok (leverage_calc calc)" by (simp add: init(2) cache_ok_init)
  have none: "t = 1" if "cw = None"
    using that by (simp add: t_def merged_weights_def default_weights_def)
  have carry: "(fst (compute_pitch_mmi calc clk p rol ctx) = Inr r \<longrightarrow>
              weights_of (components r) = ws) \<and>
           (fst (compute_pa_mmi calc clk ps rol agg ctxs) = Inr r' \<longrightarrow>
              weights_of (components r') = ws)"
    if "get_weights (weights calc) = Inr ws" for ws
    using compute_pitch_mmi_weights [OF that] compute_pa_mmi_weights [OF that ok] by blast
  show ?thesis
  proof (cases "\<bar>t - 1\<bar> > 0.01")
    case True
    with init(3) have t0: "t \<noteq> 0" by blast
    from True init(1) have w: "weights calc =
        map (\<lambda>(k, v). (k, v / t)) (merged_weights cw)"
      by (simp only: if_True)
    then have w': "weights calc =
        [(''leverage'', a0 / t), (''pressure'', b0 / t), (''fatigue'', c0 / t),
         (''execution'', d0 / t), (''bio'', e0 / t)]"
      by (simp add: m)
    have gw: "get_weights (weights calc) = Inr (a0 / t, b0 / t, c0 / t, d0 / t, e0 / t)"
      unfolding w' by (rule get_weights_five)
    have "a0 / t + b0 / t + c0 / t + d0 / t + e0 / t = (a0 + b0 + c0 + d0 + e0) / t"
      by (simp add: add_divide_distrib)
    also have "\<dots> = 1" using t t0 by simp
    finally have s1: "\<bar>a0 / t + b0 / t + c0 / t + d0 / t + e0 / t - 1\<bar> \<le> 1 / 10 ^ 9" by simp
    have nn: "cw \<noteq> None"
    proof
      assume "cw = None"
      then have "t = 1" by (rule none)
      with True show False by simp
    qed
    have lt: "\<not> \<bar>t - 1\<bar> < 0.01" using True by simp
    have "get_weights (weights calc) = Inr (a0 / t, b0 / t, c0 / t, d0 / t, e0 / t) \<and>
           (fst (compute_pitch_mmi calc clk p rol ctx) = Inr r \<longrightarrow>
              weights_of (components r) = (a0 / t, b0 / t, c0 / t, d0 / t, e0 / t)) \<and>
           (fst (compute_pa_mmi calc clk ps rol agg ctxs) = Inr r' \<longrightarrow>
              weights_of (components r') = (a0 / t, b0 / t, c0 / t, d0 / t, e0 / t)) \<and>
           (cw = None \<longrightarrow> \<bar>a0 / t + b0 / t + c0 / t + d0 / t + e0 / t - 1\<bar> \<le> 1 / 10 ^ 9) \<and>
           (\<bar>t - 1\<bar> > 0.01 \<longrightarrow>
              \<bar>a0 / t + b0 / t + c0 / t + d0 / t + e0 / t - 1\<bar> \<le> 1 / 10 ^ 9 \<and>
              weights calc = map (\<lambda>(k, v). (k, v / t)) (merged_weights cw)) \<and>
           (\<bar>t - 1\<bar> < 0.01 \<longrightarrow>
              weights calc = merged_weights cw \<and>
              a0 / t + b0 / t + c0 / t + d0 / t + e0 / t = t)"
      using gw carry [OF gw] s1 nn w lt by blast
    then show ?thesis unfolding t_def by blast
  next
    case False
    with init(1) have w: "weights calc = merged_weights cw" by (simp only: if_False)
    have gw: "get_weights (weights calc) = Inr (a0, b0, c0, d0, e0)"
      unfolding w m by (rule get_weights_five)
    have s1: "cw = None \<longrightarrow> \<bar>a0 + b0 + c0 + d0 + e0 - 1\<bar> \<le> 1 / 10 ^ 9"
      using none t by simp
    have "get_weights (weights calc) = Inr (a0, b0, c0, d0, e0) \<and>
           (fst (compute_pitch_mmi calc clk p rol ctx) = Inr r \<longrightarrow>
              weights_of (components r) = (a0, b0, c0, d0, e0)) \<and>
           (fst (compute_pa_mmi calc clk ps rol agg ctxs) = Inr r' \<longrightarrow>
              weights_of (components r') = (a0, b0, c0, d0, e0)) \<and>
           (cw = None \<longrightarrow> \<bar>a0 + b0 + c0 + d0 + e0 - 1\<bar> \<le> 1 / 10 ^ 9) \<and>
           (\<bar>t - 1\<bar> > 0.01 \<longrightarrow>
              \<bar>a0 + b0 + c0 + d0 + e0 - 1\<bar> \<le> 1 / 10 ^ 9 \<and>
              weights calc = map (\<lambda>(k, v). (k, v / t)) (merged_weights cw)) \<and>
           (\<bar>t - 1\<bar> < 0.01 \<longrightarrow>
              weights calc = merged_weights cw \<and>
              a0 + b0 + c0 + d0 + e0 = t)"
      using gw carry [OF gw] s1 w False t by blast
    then show ?thesis unfolding t_def by blast
  qed
qed

lemma MMICalculator_init_08:
  "MMICalculator_init 2024 0 None (Some weights_08) = Inr default_calculator"
  by (simp add: MMICalculator_init_def default_calculator_def default_weights_def weights_08_def
      Let_def)

theorem calculator_weights_witness:
  "MMICalculator_init 2024 0 None (Some weights_08) = Inr default_calculator \<and>
   set (map fst weights_08) \<subseteq> set component_keys \<and>
   \<bar>sum_list (map snd (merged_weights (Some weights_08))) - 1\<bar> > 0.01 \<and>
   (\<exists>a b c d e. get_weights (weights default_calculator) = Inr (a, b, c, d, e) \<and>
                 \<bar>a + b + c + d + e - 1\<bar> \<le> 1 / 10 ^ 9)"
proof -
  have k: "set (map fst (case Some weights_08 of None \<Rightarrow> [] | Some l \<Rightarrow> l)) \<subseteq> set component_keys"
    by (simp add: weights_08_def component_keys_def)
  have t: "\<bar>sum_list (map snd (merged_weights (Some weights_08))) - 1\<bar> > 0.01"
    by (simp add: merged_weights_def weights_08_def default_weights_def)
  have "\<exists>a b c d e. get_weights (weights default_calculator) = Inr (a, b, c, d, e) \<and>
                 \<bar>a + b + c + d + e - 1\<bar> \<le> 1 / 10 ^ 9"
    using calculator_weights [OF MMICalculator_init_08 k, where clk = "ticking_clock 0"
        and p = sample_pitch and rol = "''pitcher''" and ctx = None and r = "sample_result ''p'' 0"
        and ps = "[]" and agg = "''max''" and ctxs = None and r' = "sample_result ''p'' 0"] t
    by blast
  with t MMICalculator_init_08 k show ?thesis by simp
qed

lemma MMICalculator_init_custom:
  "MMICalculator_init 2024 0 None (Some [(''leverage'', 0.345)]) = Inr custom_calculator"
  by (simp add: MMICalculator_init_def custom_calculator_def default_weights_def Let_def)

text \<open>
  With \<open>custom_weights = {"leverage": 0.345}\<close> the merged weights total 0.995, are not
  renormalized, and the components of a computed result carry weights whose sum is not within
  1e-9 of 1.
\<close>

theorem weights_kept_within_tolerance:
  "MMICalculator_init 2024 0 None (Some [(''leverage'', 0.345)]) = Inr custom_calculator \<and>
   fst (compute_pitch_mmi custom_calculator (ticking_clock 0) sample_pitch ''pitcher'' None)
     = Inr (result_of_pitch FeatureBuilder_init (create_default_scalers 2024 0)
              (0.345, 0.20, 0.20, 0.15, 0.10) (leverage_of_pitch sample_pitch) sample_pitch
              ''pitcher'' None 0) \<and>
   \<not> \<bar>weights_total (components
        (result_of_pitch FeatureBuilder_init (create_default_scalers 2024 0)
           (0.345, 0.20, 0.20, 0.15, 0.10) (leverage_of_pitch sample_pitch) sample_pitch
           ''pitcher'' None 0)) - 1\<bar> \<le> 1 / 10 ^ 9"
proof -
  have r: "''pitcher'' = ''pitcher'' \<or> ''pitcher'' = ''batter''" by simp
  have w: "get_weights (weights custom_calculator) = Inr (0.345, 0.20, 0.20, 0.15, 0.10)"
    by (simp add: custom_calculator_def get_weights_def)
  have c: "cache_ok (leverage_calc custom_calculator)"
    by (simp add: custom_calculator_def cache_ok_init)
  have wt: "weights_total comps = (case weights_of comps of (a, b, c, d, e) \<Rightarrow> a + b + c + d + e)" for comps
    by (simp add: weights_total_def weights_of_def)
  have fb: "feature_builder custom_calculator = FeatureBuilder_init"
    and ss: "scaler_set custom_calculator = create_default_scalers 2024 0"
    by (simp_all add: custom_calculator_def)
  have call: "fst (compute_pitch_mmi custom_calculator (ticking_clock 0) sample_pitch ''pitcher'' None)
     = Inr (result_of_pitch FeatureBuilder_init (create_default_scalers 2024 0)
              (0.345, 0.20, 0.20, 0.15, 0.10) (leverage_of_pitch sample_pitch) sample_pitch
              ''pitcher'' None 0)"
    unfolding compute_pitch_mmi_ok [OF r w c] fst_conv fb ss ticking_clock_readings by (rule refl)
  have tot: "\<not> \<bar>weights_total (components
        (result_of_pitch FeatureBuilder_init (create_default_scalers 2024 0)
           (0.345, 0.20, 0.20, 0.15, 0.10) (leverage_of_pitch sample_pitch) sample_pitch
           ''pitcher'' None 0)) - 1\<bar> \<le> 1 / 10 ^ 9"
    by (simp add: wt result_of_pitch_fields)
  from MMICalculator_init_custom call tot show ?thesis by (intro conjI)
qed

section \<open>Monotonicity of the win probability\<close>

lemma run_expectancy_entries:
  "(k, v) \<in> set RUN_EXPECTANCY_MATRIX \<Longrightarrow> 0 \<le> v \<and> v \<le> 2.292"
  by (auto simp: RUN_EXPECTANCY_MATRIX_def)

lemma get_run_expectancy_bounds:
  "0 \<le> get_run_expectancy os bases" "get_run_expectancy os bases \<le> 2.292"
proof -
  have "0 \<le> get_run_expectancy os bases \<and> get_run_expectancy os bases \<le> 2.292"
  proof (cases "map_of RUN_EXPECTANCY_MATRIX (os, to_code bases)")
    case None
    then show ?thesis by (simp add: get_run_expectancy_def)
  next
    case (Some v)
    then have "((os, to_code bases), v) \<in> set RUN_EXPECTANCY_MATRIX" by (rule map_of_SomeD)
    then have "0 \<le> v \<and> v \<le> 2.292" by (rule run_expectancy_entries)
    with Some show ?thesis by (simp add: get_run_expectancy_def)
  qed
  then show "0 \<le> get_run_expectancy os bases" "get_run_expectancy os bases \<le> 2.292" by simp_all
qed

lemma effective_diff_mono:
  "d1 \<le> d2 \<Longrightarrow> effective_diff os bases d1 b \<le> effective_diff os bases d2 b"
  by (simp add: effective_diff_def)

lemma effective_diff_succ:
  "effective_diff os bases (d + 1) b = effective_diff os bases d b + 1"
  by (simp add: effective_diff_def)

lemma effective_diff_bounds:
  "real_of_int d - 2.292 \<le> effective_diff os bases d b"
  "effective_diff os bases d b \<le> real_of_int d + 2.292"
  using get_run_expectancy_bounds [of os bases] by (auto simp: effective_diff_def)

lemma std_dev_of_pos: "0 < std_dev_of inn top_half"
proof -
  have "(0::real) < max 0.5 (real_of_int (half_innings_remaining inn top_half))" by simp
  then have "0 < sqrt (max 0.5 (real_of_int (half_innings_remaining inn top_half)))"
    by (simp only: real_sqrt_gt_0_iff)
  then show ?thesis by (simp add: std_dev_of_def)
qed

lemma half_innings_remaining_early:
  assumes "1 \<le> inn" and "inn \<le> 5"
  shows "8 \<le> half_innings_remaining inn top_half" "half_innings_remaining inn top_half \<le> 17"
  using assms by (auto simp: half_innings_remaining_def)

lemma std_dev_of_early:
  assumes "1 \<le> inn" and "inn \<le> 5"
  shows "5.6 \<le> std_dev_of inn top_half" "std_dev_of inn top_half \<le> 8.4"
proof -
  define r where "r = real_of_int (half_innings_remaining inn top_half)"
  from half_innings_remaining_early [OF assms, of top_half]
  have r: "8 \<le> r" "r \<le> 17" by (simp_all add: r_def)
  have sd: "std_dev_of inn top_half = 2 * sqrt r"
    using r(1) by (simp add: std_dev_of_def r_def max_def)
  have "2.8 \<le> sqrt r"
  proof (rule real_le_rsqrt)
    have "(2.8::real)\<^sup>2 = 7.84" by (simp add: power2_eq_square)
    with r(1) show "(2.8::real)\<^sup>2 \<le> r" by simp
  qed
  then show "5.6 \<le> std_dev_of inn top_half"
    by (simp add: sd)
  have "sqrt r \<le> 4.2"
  proof (rule real_le_lsqrt)
    have "(4.2::real)\<^sup>2 = 17.64" by (simp add: power2_eq_square)
    with r(2) show "r \<le> (4.2::real)\<^sup>2" by simp
  qed simp_all
  then show "std_dev_of inn top_half \<le> 8.4"
    by (simp add: sd)
qed

lemma sigmoid_le_054:
  assumes "z \<le> 0.1"
  shows "sigmoid z \<le> 0.54"
proof (cases "exp (- z) > max_float")
  case True
  then have "z < 0" by (rule overflow_neg)
  with True show ?thesis by (simp add: sigmoid_def)
next
  case False
  have "1 + (- z) \<le> exp (- z)" by (rule exp_ge_add_one_self)
  with assms have e: "0.9 \<le> exp (- z)" by simp
  then have "1 \<le> 0.54 * (1 + exp (- z))" by simp
  moreover have "0 < 1 + exp (- z)" by (simp add: add_pos_pos)
  ultimately have "1 / (1 + exp (- z)) \<le> 0.54" by (simp add: pos_divide_le_eq mult.commute)
  with False show ?thesis by (simp add: sigmoid_def)
qed

lemma blend_poly:
  assumes "0 < a" and "a \<le> 1.9" and "0 < q" and "q \<le> 0.894"
  shows "(0.954 + 0.054 * a) * (1 + a * q) \<le> 1 + (a::real)"
proof -
  have aq: "a * q \<le> a * 0.894" using assms(1,4) by (simp add: mult_left_mono)
  have "(0.954 + 0.054 * a) * (1 + a * q) \<le> (0.954 + 0.054 * a) * (1 + a * 0.894)"
    using aq assms(1) by (intro mult_left_mono) simp_all
  also have "\<dots> = 0.954 + 0.906876 * a + 0.048276 * (a * a)" by (simp add: algebra_simps)
  also have "\<dots> \<le> 0.954 + 0.906876 * a + 0.048276 * (1.9 * a)"
    using assms(1,2) by (simp add: mult_right_mono)
  also have "\<dots> \<le> 1 + a" using assms(1) by simp
  finally show ?thesis .
qed

lemma blend_step:
  assumes "- 0.1 \<le> z" and "1 / 8.4 \<le> \<delta>"
  shows "0.9 * sigmoid z + 0.054 \<le> sigmoid (z + \<delta>)"
proof -
  define a where "a = exp (- z)"
  define q where "q = exp (- \<delta>)"
  have d0: "0 < \<delta>" using assms(2) by simp
  have s1: "sigmoid z = 1 / (1 + a)"
    unfolding a_def using assms(1) by (intro sigmoid_no_overflow) simp
  have s2: "sigmoid (z + \<delta>) = 1 / (1 + a * q)"
  proof -
    have "sigmoid (z + \<delta>) = 1 / (1 + exp (- (z + \<delta>)))"
      using assms(1) d0 by (intro sigmoid_no_overflow) simp
    also have "exp (- (z + \<delta>)) = a * q" by (simp add: a_def q_def exp_add [symmetric])
    finally show ?thesis .
  qed
  have a0: "0 < a" and q0: "0 < q" by (simp_all add: a_def q_def)
  have a1: "a \<le> 1.9"
  proof (cases "0 \<le> z")
    case True
    then have "a \<le> 1" by (simp add: a_def)
    then show ?thesis by simp
  next
    case False
    then have "0 \<le> - z" "- z \<le> 1" using assms(1) by simp_all
    then have "exp (- z) \<le> 1 + (- z) + (- z)\<^sup>2" by (rule exp_bound)
    also have "\<dots> \<le> 1 + 0.1 + 0.01"
    proof -
      have "- z \<le> 0.1" using assms(1) by simp
      moreover have "(- z)\<^sup>2 \<le> 0.01"
      proof -
        have "(- z) * (- z) \<le> 0.1 * 0.1"
          using \<open>0 \<le> - z\<close> \<open>- z \<le> 0.1\<close> by (intro mult_mono) simp_all
        then show ?thesis by (simp add: power2_eq_square)
      qed
      ultimately show ?thesis by simp
    qed
    finally show ?thesis by (simp add: a_def)
  qed
  have q1: "q \<le> 0.894"
  proof -
    have "1 + \<delta> \<le> exp \<delta>" by (rule exp_ge_add_one_self)
    moreover have "(1::real) + 1 / 8.4 \<le> 1 + \<delta>" using assms(2) by simp
    ultimately have e: "1 + 1 / 8.4 \<le> exp \<delta>" by linarith
    have "q = 1 / exp \<delta>" by (simp add: q_def exp_minus inverse_eq_divide)
    also have "\<dots> \<le> 1 / (1 + 1 / 8.4)"
      using e by (intro divide_left_mono) simp_all
    also have "\<dots> \<le> 0.894" by simp
    finally show ?thesis .
  qed
  have p: "(0.954 + 0.054 * a) * (1 + a * q) \<le> 1 + a"
    using a0 a1 q0 q1 by (rule blend_poly)
  have pa: "0 < 1 + a" and paq: "0 < 1 + a * q" using a0 q0 by (simp_all add: add_pos_pos)
  have "0.9 / (1 + a) + 0.054 = (0.954 + 0.054 * a) / (1 + a)"
    using pa by (simp add: field_simps)
  also have "\<dots> \<le> 1 / (1 + a * q)"
  proof -
    have "(0.954 + 0.054 * a) * (1 + a * q) \<le> 1 * (1 + a)" using p by simp
    then show ?thesis using pa paq by (simp only: frac_le_eq [symmetric] pos_divide_le_eq pos_le_divide_eq) (simp add: field_simps)
  qed
  finally show ?thesis by (simp add: s1 s2)
qed

lemma sigmoid_diff_mono:
  assumes "d1 \<le> d2"
  shows "sigmoid (effective_diff os bases d1 b / std_dev_of inn top_half)
       \<le> sigmoid (effective_diff os bases d2 b / std_dev_of inn top_half)"
proof (rule sigmoid_mono)
  from assms have "effective_diff os bases d1 b \<le> effective_diff os bases d2 b"
    by (rule effective_diff_mono)
  then show "effective_diff os bases d1 b / std_dev_of inn top_half
           \<le> effective_diff os bases d2 b / std_dev_of inn top_half"
    using std_dev_of_pos [of inn top_half] by (simp add: divide_right_mono)
qed

lemma sigmoid_diff_behind:
  assumes "1 \<le> inn" and "inn \<le> 5" and "d \<le> - 2"
  shows "sigmoid (effective_diff os bases d b / std_dev_of inn top_half) \<le> 0.54"
proof (rule sigmoid_le_054)
  have sd: "5.6 \<le> std_dev_of inn top_half" using assms(1,2) by (rule std_dev_of_early)
  have "effective_diff os bases d b \<le> real_of_int d + 2.292" by (rule effective_diff_bounds)
  also have "\<dots> \<le> 0.292" using assms(3) by simp
  also have "\<dots> \<le> 0.1 * std_dev_of inn top_half" using sd by simp
  finally show "effective_diff os bases d b / std_dev_of inn top_half \<le> 0.1"
    using std_dev_of_pos [of inn top_half] by (simp add: pos_divide_le_eq)
qed

lemma sigmoid_diff_step:
  assumes "1 \<le> inn" and "inn \<le> 5" and "2 \<le> d"
  shows "0.9 * sigmoid (effective_diff os bases d b / std_dev_of inn top_half) + 0.054
       \<le> sigmoid (effective_diff os bases (d + 1) b / std_dev_of inn top_half)"
proof -
  define sd where "sd = std_dev_of inn top_half"
  define e where "e = effective_diff os bases d b"
  have sd: "5.6 \<le> sd" "sd \<le> 8.4" using std_dev_of_early [OF assms(1,2)] by (simp_all add: sd_def)
  then have sd0: "0 < sd" by simp
  have "- 0.1 * sd \<le> - 0.292" using sd(1) by simp
  also have "\<dots> \<le> real_of_int d - 2.292" using assms(3) by simp
  also have "\<dots> \<le> e" unfolding e_def by (rule effective_diff_bounds)
  finally have z: "- 0.1 \<le> e / sd" using sd0 by (simp add: pos_le_divide_eq)
  have dl: "1 / 8.4 \<le> 1 / sd" using sd(2) sd0 by (intro divide_left_mono) simp_all
  have "0.9 * sigmoid (e / sd) + 0.054 \<le> sigmoid (e / sd + 1 / sd)"
    using z dl by (rule blend_step)
  also have "e / sd + 1 / sd = (e + 1) / sd" by (simp add: add_divide_distrib)
  also have "e + 1 = effective_diff os bases (d + 1) b"
    by (simp only: e_def effective_diff_succ)
  finally show ?thesis by (simp only: e_def sd_def)
qed

lemma blended_mono:
  assumes "1 \<le> inn" and "d1 \<le> d2"
  shows "blended inn d1 (sigmoid (effective_diff os bases d1 b / std_dev_of inn top_half))
       \<le> blended inn d2 (sigmoid (effective_diff os bases d2 b / std_dev_of inn top_half))"
proof -
  define S where "S d = sigmoid (effective_diff os bases d b / std_dev_of inn top_half)" for d
  have mono: "S x \<le> S y" if "x \<le> y" for x y
    unfolding S_def using that by (rule sigmoid_diff_mono)
  have "blended inn d1 (S d1) \<le> blended inn d2 (S d2)"
  proof (cases "inn \<le> 5")
    case False
    then have "blended inn d (S d) = S d" for d by (simp add: blended_def)
    with mono [OF assms(2)] show ?thesis by simp
  next
    case True
    have near: "blended inn d (S d) = 0.9 * S d + 0.054" if "\<bar>d\<bar> \<le> 2" for d
      using that True by (simp add: blended_def home_advantage_def)
    have far: "blended inn d (S d) = S d" if "\<not> \<bar>d\<bar> \<le> 2" for d
      using that by (simp add: blended_def)
    show ?thesis
    proof (cases "\<bar>d1\<bar> \<le> 2")
      case n1: True
      show ?thesis
      proof (cases "\<bar>d2\<bar> \<le> 2")
        case True
        with n1 mono [OF assms(2)] show ?thesis by (simp add: near)
      next
        case False
        with n1 assms(2) have d2: "3 \<le> d2" by linarith
        from n1 have "d1 \<le> 2" by simp
        then have "0.9 * S d1 + 0.054 \<le> 0.9 * S 2 + 0.054" using mono [of d1 2] by simp
        also have "\<dots> \<le> S (2 + 1)"
          unfolding S_def using assms(1) True by (intro sigmoid_diff_step) simp_all
        also have "\<dots> \<le> S d2" using d2 by (intro mono) simp
        finally show ?thesis using n1 False by (simp add: near far)
      qed
    next
      case f1: False
      show ?thesis
      proof (cases "\<bar>d2\<bar> \<le> 2")
        case True
        with f1 assms(2) have d1: "d1 \<le> - 3" by linarith
        from True have d2: "- 2 \<le> d2" by simp
        have "S d1 \<le> S (- 2)" using d1 by (intro mono) simp
        also have "\<dots> \<le> 0.9 * S (- 2) + 0.054"
        proof -
          have "S (- 2) \<le> 0.54"
            unfolding S_def using assms(1) \<open>inn \<le> 5\<close> by (intro sigmoid_diff_behind) simp_all
          then show ?thesis by simp
        qed
        also have "\<dots> \<le> 0.9 * S d2 + 0.054" using mono [OF d2] by simp
        finally show ?thesis using f1 True by (simp add: near far)
      next
        case False
        with f1 mono [OF assms(2)] show ?thesis by (simp add: far)
      qed
    qed
  qed
  then show ?thesis by (simp only: S_def)
qed

lemma wp_estimate_mono:
  assumes "1 \<le> inn" and "d1 \<le> d2"
  shows "wp_estimate inn top_half os bases d1 b \<le> wp_estimate inn top_half os bases d2 b"
proof -
  from assms have "blended inn d1 (sigmoid (effective_diff os bases d1 b / std_dev_of inn top_half))
       \<le> blended inn d2 (sigmoid (effective_diff os bases d2 b / std_dev_of inn top_half))"
    by (rule blended_mono)
  then show ?thesis unfolding wp_estimate_def by (intro max.mono min.mono) simp_all
qed

lemma wp_estimate_bounds:
  "0 \<le> wp_estimate inn top_half os bases d b" "wp_estimate inn top_half os bases d b \<le> 1"
  by (simp_all add: wp_estimate_def)

lemma calculate_win_prob_by_diff:
  "calculate_win_prob inn top_half os bases h a b = wp_by_diff inn top_half os bases (h - a) b"
  by (simp add: calculate_win_prob_unfold wp_by_diff_def)

lemma wp_by_diff_mono:
  assumes "1 \<le> inn" and "d1 \<le> d2"
  shows "wp_by_diff inn top_half os bases d1 b \<le> wp_by_diff inn top_half os bases d2 b"
proof -
  note e = wp_estimate_mono [OF assms, of top_half os bases b]
  consider (walkoff) "9 \<le> inn" "\<not> top_half"
    | (extra) "9 < inn" "top_half"
    | (ninth) "inn = 9" "top_half"
    | (early) "inn < 9"
    by linarith
  then show ?thesis
  proof cases
    case walkoff
    then have "wp_by_diff inn top_half os bases d b =
        (if 0 < d then 1 else wp_estimate inn top_half os bases d b)" for d
      by (simp add: wp_by_diff_def half_innings_remaining_zero_iff)
    then show ?thesis using e assms(2) by (simp add: wp_estimate_bounds)
  next
    case extra
    then have "wp_by_diff inn top_half os bases d b =
        (if d \<noteq> 0 then (if 0 < d then 1 else 0) else wp_estimate inn top_half os bases d b)" for d
      by (simp add: wp_by_diff_def half_innings_remaining_zero_iff)
    then show ?thesis using e assms(2) by (simp add: wp_estimate_bounds)
  next
    case ninth
    then have "wp_by_diff inn top_half os bases d b =
        (if 0 < d then 1 else if d = 0 then 0.5 else 0)" for d
      by (simp add: wp_by_diff_def half_innings_remaining_zero_iff)
    then show ?thesis using assms(2) by simp
  next
    case early
    then have "wp_by_diff inn top_half os bases d b = wp_estimate inn top_half os bases d b" for d
      by (simp add: wp_by_diff_def half_innings_remaining_zero_iff)
    then show ?thesis using e by simp
  qed
qed

text \<open>
  Claim C3. With the inning, the half, the outs, the bases and the batting side fixed, and
  the inning at least 1 as in every game state, \<open>calculate_win_prob\<close> does not decrease
  when the home run differential \<open>home_score - away_score\<close> does not decrease. This covers
  the step the early-inning blend makes where the differential leaves the range from -2 to 2,
  and the shortcuts of the ninth inning and after. Arithmetic is that of the real numbers.
\<close>

theorem win_prob_monotone_in_run_differential:
  assumes "1 \<le> inn" and "h1 - a1 \<le> h2 - a2"
  shows "calculate_win_prob inn top_half os bases h1 a1 b
       \<le> calculate_win_prob inn top_half os bases h2 a2 b"
  unfolding calculate_win_prob_by_diff using assms by (rule wp_by_diff_mono)

theorem win_prob_monotone_in_run_differential_witness:
  "(1::int) \<le> 3 \<and> (2::int) - 0 \<le> 3 - 0 \<and>
   calculate_win_prob 3 True 0 empty_bases 2 0 False
     \<le> calculate_win_prob 3 True 0 empty_bases 3 0 False"
  using win_prob_monotone_in_run_differential [of 3 2 0 3 0 True 0 empty_bases False] by simp

section \<open>Plate-appearance aggregation\<close>

text \<open>
  Claim C10. For the empty pitch list \<open>compute_pa_mmi\<close> raises ValueError whatever the role,
  the aggregation mode and the contexts are, before computing anything: the calculator and
  the clock are returned untouched and no result is produced.
\<close>

theorem compute_pa_mmi_empty:
  "compute_pa_mmi self clk [] rol aggregation contexts =
     (Inl (ValueError ''Cannot compute PA MMI with no pitches''), self, clk)"
  by (subst compute_pa_mmi.simps) simp

end
